theory Spec2Isabelle
  imports Complex_Main "HOL-Library.AList"
begin

section \<open>Numbers and arrays of the source language\<close>

text \<open>
  The engine of \<^verbatim>\<open>src/lib/services/technical-analysis.ts\<close> computes on
  JavaScript numbers. For the moving averages, the pattern detector and the score, finite
  numbers are modelled as real numbers: rounding, overflow and the sign of zero are
  outside that part of the model. What a finite input can still produce without rounding
  is kept: a division by zero gives an infinity or NaN, the minimum of no arguments is
  \<open>Infinity\<close>, and reading an array out of range gives \<open>undefined\<close>,
  which a comparison turns into NaN. The RSI and MACD calculators are modelled on
  double-precision numbers, with the rounding of every operation (next section).
\<close>

datatype number = Fin real | PosInf | NegInf | NaN

text \<open>\<open>ToNumber\<close> of an array read: \<open>undefined\<close> becomes NaN.\<close>

fun toNumber :: "real option \<Rightarrow> number" where
  "toNumber None = NaN"
| "toNumber (Some x) = Fin x"

text \<open>The relational operators: every comparison with NaN is false.\<close>

fun n_lt :: "number \<Rightarrow> number \<Rightarrow> bool" where
  "n_lt (Fin a) (Fin b) = (a < b)"
| "n_lt (Fin a) PosInf = True"
| "n_lt NegInf (Fin b) = True"
| "n_lt NegInf PosInf = True"
| "n_lt _ _ = False"

fun n_le :: "number \<Rightarrow> number \<Rightarrow> bool" where
  "n_le (Fin a) (Fin b) = (a \<le> b)"
| "n_le NaN _ = False"
| "n_le _ NaN = False"
| "n_le NegInf _ = True"
| "n_le _ PosInf = True"
| "n_le _ _ = False"

definition n_gt :: "number \<Rightarrow> number \<Rightarrow> bool" where
  "n_gt a b = n_lt b a"

definition n_ge :: "number \<Rightarrow> number \<Rightarrow> bool" where
  "n_ge a b = n_le b a"

text \<open>\<open>a / b\<close> on finite operands, with the quotients by zero.\<close>

definition js_div :: "real \<Rightarrow> real \<Rightarrow> number" where
  "js_div a b =
     (if b \<noteq> 0 then Fin (a / b)
      else if a > 0 then PosInf
      else if a < 0 then NegInf
      else NaN)"

text \<open>\<open>x * c\<close> and \<open>x - c\<close> for a finite right operand \<open>c\<close>.\<close>

fun n_times :: "number \<Rightarrow> real \<Rightarrow> number" where
  "n_times (Fin a) c = Fin (a * c)"
| "n_times PosInf c = (if c > 0 then PosInf else if c < 0 then NegInf else NaN)"
| "n_times NegInf c = (if c > 0 then NegInf else if c < 0 then PosInf else NaN)"
| "n_times NaN c = NaN"

fun n_minus :: "number \<Rightarrow> real \<Rightarrow> number" where
  "n_minus (Fin a) c = Fin (a - c)"
| "n_minus x c = x"

text \<open>\<open>Math.min(...xs)\<close> and \<open>Math.max(...xs)\<close> on finite arguments.\<close>

definition Math_min :: "real list \<Rightarrow> number" where
  "Math_min xs = (case xs of [] \<Rightarrow> PosInf | x # r \<Rightarrow> Fin (fold min r x))"

definition Math_max :: "real list \<Rightarrow> number" where
  "Math_max xs = (case xs of [] \<Rightarrow> NegInf | x # r \<Rightarrow> Fin (fold max r x))"

text \<open>
  \<open>xs[i]\<close> for an integer index: \<open>undefined\<close> out of range.
\<close>

definition at_index :: "'a list \<Rightarrow> int \<Rightarrow> 'a option" where
  "at_index xs i = (if 0 \<le> i \<and> i < int (length xs) then Some (xs ! nat i) else None)"

text \<open>\<open>x || 0\<close> on a number or \<open>undefined\<close>: the falsy values give 0.\<close>

fun or_zero :: "real option \<Rightarrow> real" where
  "or_zero None = 0"
| "or_zero (Some x) = (if x = 0 then 0 else x)"

text \<open>
  \<open>Array.prototype.slice\<close>: a negative index counts from the end, and both
  indices are clipped to the array.
\<close>

definition rel_index :: "int \<Rightarrow> nat \<Rightarrow> nat" where
  "rel_index i len = (if i < 0 then nat (max (int len + i) 0) else min (nat i) len)"

definition slice :: "'a list \<Rightarrow> int \<Rightarrow> int \<Rightarrow> 'a list" where
  "slice xs start fin =
     (let k = rel_index start (length xs); f = rel_index fin (length xs)
      in take (f - k) (drop k xs))"

definition slice_from :: "'a list \<Rightarrow> int \<Rightarrow> 'a list" where
  "slice_from xs start = drop (rel_index start (length xs)) xs"

section \<open>Double-precision arithmetic\<close>

text \<open>
  The number type of the source language is IEEE 754 binary64, and every arithmetic
  operation rounds its exact result to the nearest double, ties to the even mantissa.
  A finite double is \<open>n * 2^e\<close> for integers \<open>\<bar>n\<bar> < 2^53\<close> and
  \<open>-1074 \<le> e \<le> 971\<close>. For a positive real \<open>a\<close>, \<open>ulp_exp a\<close> is the
  exponent of the grid of doubles around \<open>a\<close>: the least \<open>e \<ge> -1074\<close> with
  \<open>a < 2^(e + 53)\<close>, found by a search over the 2046 binades. \<open>rnd x\<close> is the
  double nearest to \<open>x\<close>; a rounded magnitude of \<open>2^1024\<close> or more is an
  infinity.

  Zero is unsigned. The calculators embedded over doubles below cannot observe the sign of
  a zero: they compare with \<open>> 0\<close>, \<open>< 0\<close> and \<open>=== 0\<close>, and none of
  their divisors is a zero.
\<close>

definition pow2 :: "int \<Rightarrow> real" where
  "pow2 e = 2 powi e"

fun ulp_search :: "nat \<Rightarrow> int \<Rightarrow> real \<Rightarrow> int" where
  "ulp_search 0 e a = e"
| "ulp_search (Suc fuel) e a = (if a < pow2 (e + 53) then e else ulp_search fuel (e + 1) a)"

definition ulp_exp :: "real \<Rightarrow> int" where
  "ulp_exp a = ulp_search 2046 (- 1074) a"

definition round_half_even :: "real \<Rightarrow> int" where
  "round_half_even q =
     (let f = \<lfloor>q\<rfloor>; r = q - of_int f
      in if r < 1 / 2 then f else if r > 1 / 2 then f + 1 else if even f then f else f + 1)"

definition rnd :: "real \<Rightarrow> number" where
  "rnd x =
     (if x = 0 then Fin 0
      else
        let a = \<bar>x\<bar>;
            e = ulp_exp a;
            v = of_int (round_half_even (a / pow2 e)) * pow2 e
        in if v \<ge> pow2 1024 then (if x > 0 then PosInf else NegInf)
           else Fin (if x > 0 then v else - v))"

text \<open>A number is a double when rounding leaves it unchanged.\<close>

fun is_double :: "number \<Rightarrow> bool" where
  "is_double (Fin x) = (rnd x = Fin x)"
| "is_double _ = True"

text \<open>
  The operators \<open>-x\<close>, \<open>a + b\<close>, \<open>a - b\<close>, \<open>a * b\<close> and \<open>a / b\<close> on
  doubles, with the IEEE results on infinities and NaN.
\<close>

fun n_neg :: "number \<Rightarrow> number" where
  "n_neg (Fin a) = Fin (- a)"
| "n_neg PosInf = NegInf"
| "n_neg NegInf = PosInf"
| "n_neg NaN = NaN"

fun d_add :: "number \<Rightarrow> number \<Rightarrow> number" where
  "d_add (Fin a) (Fin b) = rnd (a + b)"
| "d_add NaN _ = NaN"
| "d_add _ NaN = NaN"
| "d_add PosInf NegInf = NaN"
| "d_add NegInf PosInf = NaN"
| "d_add PosInf _ = PosInf"
| "d_add _ PosInf = PosInf"
| "d_add NegInf _ = NegInf"
| "d_add _ NegInf = NegInf"

definition d_sub :: "number \<Rightarrow> number \<Rightarrow> number" where
  "d_sub a b = d_add a (n_neg b)"

fun d_mul :: "number \<Rightarrow> number \<Rightarrow> number" where
  "d_mul (Fin a) (Fin b) = rnd (a * b)"
| "d_mul NaN _ = NaN"
| "d_mul _ NaN = NaN"
| "d_mul (Fin a) PosInf = (if a > 0 then PosInf else if a < 0 then NegInf else NaN)"
| "d_mul (Fin a) NegInf = (if a > 0 then NegInf else if a < 0 then PosInf else NaN)"
| "d_mul PosInf (Fin b) = (if b > 0 then PosInf else if b < 0 then NegInf else NaN)"
| "d_mul NegInf (Fin b) = (if b > 0 then NegInf else if b < 0 then PosInf else NaN)"
| "d_mul PosInf PosInf = PosInf"
| "d_mul NegInf NegInf = PosInf"
| "d_mul PosInf NegInf = NegInf"
| "d_mul NegInf PosInf = NegInf"

fun d_div :: "number \<Rightarrow> number \<Rightarrow> number" where
  "d_div (Fin a) (Fin b) =
     (if b \<noteq> 0 then rnd (a / b)
      else if a > 0 then PosInf else if a < 0 then NegInf else NaN)"
| "d_div NaN _ = NaN"
| "d_div _ NaN = NaN"
| "d_div (Fin a) PosInf = Fin 0"
| "d_div (Fin a) NegInf = Fin 0"
| "d_div PosInf (Fin b) = (if b \<ge> 0 then PosInf else NegInf)"
| "d_div NegInf (Fin b) = (if b \<ge> 0 then NegInf else PosInf)"
| "d_div _ _ = NaN"

text \<open>Non-negative doubles and \<open>Infinity\<close>; the numbers of the interval [0, 100].\<close>

fun nn :: "number \<Rightarrow> bool" where
  "nn (Fin z) = (0 \<le> z \<and> z < pow2 1024)"
| "nn PosInf = True"
| "nn _ = False"

fun in_range :: "number \<Rightarrow> bool" where
  "in_range (Fin r) = (0 \<le> r \<and> r \<le> 100)"
| "in_range _ = False"

section \<open>Series utilities\<close>

text \<open>
  The period of every calculator is a positive integer at each call site (12, 14, 20,
  26, 50, 200). With period 0 the source divides by zero; the real-valued results below
  do not represent that, so every statement with a variable period assumes it positive.
\<close>

text \<open>
  \<^verbatim>\<open>calculateSMA(prices, period)\<close>: \<open>slice(-period)\<close> and \<open>reduce\<close> from 0.
\<close>

definition calculateSMA :: "real list \<Rightarrow> nat \<Rightarrow> real" where
  "calculateSMA prices period =
     (if length prices < period then or_zero (at_index prices (int (length prices) - 1))
      else foldl (\<lambda>sum p. sum + p) 0 (slice_from prices (- int period)) / real period)"

text \<open>\<^verbatim>\<open>calculateEMA(prices, period)\<close>: the loop runs over the indices from \<open>period\<close>.\<close>

definition calculateEMA :: "real list \<Rightarrow> nat \<Rightarrow> real" where
  "calculateEMA prices period =
     (if length prices < period then or_zero (at_index prices (int (length prices) - 1))
      else
        let multiplier = 2 / (real period + 1);
            ema0 = calculateSMA (slice prices 0 (int period)) period
        in fold (\<lambda>i ema. (prices ! i - ema) * multiplier + ema)
             [period ..< length prices] ema0)"

text \<open>
  The same two functions over doubles, as \<^verbatim>\<open>calculateMACD\<close> needs them: the
  prices are doubles, and every \<open>+\<close>, \<open>-\<close>, \<open>*\<close> and \<open>/\<close> rounds.
\<close>

definition calculateSMA_double :: "real list \<Rightarrow> nat \<Rightarrow> number" where
  "calculateSMA_double prices period =
     (if length prices < period then Fin (or_zero (at_index prices (int (length prices) - 1)))
      else d_div (foldl (\<lambda>sum p. d_add sum (Fin p)) (Fin 0) (slice_from prices (- int period)))
             (Fin (real period)))"

definition calculateEMA_double :: "real list \<Rightarrow> nat \<Rightarrow> number" where
  "calculateEMA_double prices period =
     (if length prices < period then Fin (or_zero (at_index prices (int (length prices) - 1)))
      else
        let multiplier = d_div (Fin 2) (Fin (real period + 1));
            ema0 = calculateSMA_double (slice prices 0 (int period)) period
        in fold (\<lambda>i ema. d_add (d_mul (d_sub (Fin (prices ! i)) ema) multiplier) ema)
             [period ..< length prices] ema0)"

section \<open>Number formatting\<close>

text \<open>Template interpolation of a non-negative integer (the counts of the summary).\<close>

function string_of_nat :: "nat \<Rightarrow> string" where
  "string_of_nat n =
     (if n < 10 then [char_of (48 + n)]
      else string_of_nat (n div 10) @ [char_of (48 + n mod 10)])"
  by pat_completeness auto
termination
  by (relation "measure id") auto

text \<open>
  \<open>x.toFixed(f)\<close>: the special values print by name; a finite value prints the
  integer nearest to \<open>x * 10^f\<close> (the larger one on a tie, on the absolute value) with
  a decimal point before its last \<open>f\<close> digits. The source language switches to
  exponent notation from \<open>10^21\<close>, which depends on the binary representation and
  is not modelled: the digits below are those of values under \<open>10^21\<close>.
\<close>

definition toFixed :: "number \<Rightarrow> nat \<Rightarrow> string" where
  "toFixed x f =
     (case x of
        NaN \<Rightarrow> ''NaN''
      | PosInf \<Rightarrow> ''Infinity''
      | NegInf \<Rightarrow> ''-Infinity''
      | Fin r \<Rightarrow>
          let s = (if r < 0 then ''-'' else []);
              n = nat \<lfloor>\<bar>r\<bar> * 10 ^ f + 1 / 2\<rfloor>;
              m = string_of_nat n;
              m = (if length m \<le> f then replicate (f + 1 - length m) CHR ''0'' @ m else m)
          in if f = 0 then s @ m
             else s @ take (length m - f) m @ ''.'' @ drop (length m - f) m)"

text \<open>\<open>s.replace(a, b)\<close> for one-character strings: the first occurrence only.\<close>

fun replace_first :: "char \<Rightarrow> char \<Rightarrow> string \<Rightarrow> string" where
  "replace_first a b [] = []"
| "replace_first a b (c # cs) = (if c = a then b # cs else c # replace_first a b cs)"

section \<open>Data model\<close>

record Candle =
  c_time :: int
  c_open :: real
  c_high :: real
  c_low :: real
  c_close :: real
  c_volume :: real

record MACD =
  m_macd :: number
  m_signal :: number
  m_histogram :: number

record BollingerBands =
  b_upper :: real
  b_middle :: real
  b_lower :: real

text \<open>
  \<open>volumeRatio\<close> is a quotient by a moving average that can be zero, so it is a
  \<open>number\<close>; \<open>rsi14\<close> and the three MACD lines are doubles, which can
  overflow; the other fields are finite for finite candles.
\<close>

record TechnicalIndicators =
  ti_symbol :: string
  price :: real
  sma20 :: real
  sma50 :: real
  sma200 :: real
  ema12 :: real
  ema26 :: real
  rsi14 :: number
  macd :: MACD
  atr14 :: real
  bollingerBands :: BollingerBands
  volumeSma20 :: real
  volumeRatio :: number
  fundingRate :: real
  openInterest :: real

datatype signal_kind = BUY | NEUTRAL | SELL

record Signal =
  s_indicator :: string
  s_signal :: signal_kind
  s_value :: number
  s_description :: string

datatype pattern_type = bullish | bearish | neutral

record Pattern =
  p_name :: string
  p_type :: pattern_type
  p_confidence :: real
  p_description :: string

datatype overall_kind = STRONG_BUY | OVERALL_BUY | OVERALL_NEUTRAL | OVERALL_SELL | STRONG_SELL

fun overall_string :: "overall_kind \<Rightarrow> string" where
  "overall_string STRONG_BUY = ''STRONG_BUY''"
| "overall_string OVERALL_BUY = ''BUY''"
| "overall_string OVERALL_NEUTRAL = ''NEUTRAL''"
| "overall_string OVERALL_SELL = ''SELL''"
| "overall_string STRONG_SELL = ''STRONG_SELL''"

record MarketSentiment =
  symbol :: string
  overall :: overall_kind
  score :: real
  signals :: "Signal list"
  patterns :: "Pattern list"
  summary :: string
  timestamp :: int

section \<open>Indicator calculators\<close>

text \<open>
  \<^verbatim>\<open>calculateRSI(prices, period = 14)\<close>, over doubles. The loop reads
  \<open>prices[i]\<close> and \<open>prices[i - 1]\<close> for the last \<open>period\<close> indices, all in
  range after the length check. The state of the loop is the pair (gains, losses), and
  \<open>rsi_sums\<close> is its value when the loop ends.
\<close>

definition rsi_step :: "real list \<Rightarrow> nat \<Rightarrow> number \<times> number \<Rightarrow> number \<times> number" where
  "rsi_step prices i acc =
     (let change = d_sub (Fin (prices ! i)) (Fin (prices ! (i - 1)))
      in if n_gt change (Fin 0) then (d_add (fst acc) change, snd acc)
         else (fst acc, d_sub (snd acc) change))"

definition rsi_sums :: "real list \<Rightarrow> nat \<Rightarrow> number \<times> number" where
  "rsi_sums prices period =
     fold (rsi_step prices) [length prices - period ..< length prices] (Fin 0, Fin 0)"

definition calculateRSI :: "real list \<Rightarrow> nat \<Rightarrow> number" where
  "calculateRSI prices period =
     (if length prices < period + 1 then Fin 50
      else
        let acc = rsi_sums prices period;
            avgGain = d_div (fst acc) (Fin (real period));
            avgLoss = d_div (snd acc) (Fin (real period))
        in if avgLoss = Fin 0 then Fin 100
           else let rs = d_div avgGain avgLoss
                in d_sub (Fin 100) (d_div (Fin 100) (d_add (Fin 1) rs)))"

text \<open>The values of \<open>change\<close> that the loop of \<open>calculateRSI\<close> visits, in order.\<close>

definition sampledDeltas :: "real list \<Rightarrow> nat \<Rightarrow> number list" where
  "sampledDeltas prices period =
     map (\<lambda>i. d_sub (Fin (prices ! i)) (Fin (prices ! (i - 1))))
       [length prices - period ..< length prices]"

text \<open>
  \<^verbatim>\<open>calculateMACD(prices)\<close>, over doubles; the literal \<open>0.8\<close> is the double
  nearest to 4/5.
\<close>

definition calculateMACD :: "real list \<Rightarrow> MACD" where
  "calculateMACD prices =
     (let ema12 = calculateEMA_double prices 12;
          ema26 = calculateEMA_double prices 26;
          macd = d_sub ema12 ema26;
          signal = d_mul macd (rnd 0.8);
          histogram = d_sub macd signal
      in \<lparr>m_macd = macd, m_signal = signal, m_histogram = histogram\<rparr>)"

definition calculateBollingerBands :: "real list \<Rightarrow> nat \<Rightarrow> BollingerBands" where
  "calculateBollingerBands prices period =
     (let sma = calculateSMA prices period;
          sl = slice_from prices (- int period);
          squaredDiffs = map (\<lambda>p. (p - sma) ^ 2) sl;
          variance = foldl (\<lambda>sum d. sum + d) 0 squaredDiffs / real period;
          stdDev = sqrt variance
      in \<lparr>b_upper = sma + stdDev * 2, b_middle = sma, b_lower = sma - stdDev * 2\<rparr>)"

text \<open>
  \<^verbatim>\<open>calculateATR(highs, lows, closes, period = 14)\<close>, for \<open>lows\<close> and \<open>closes\<close>
  at least as long as \<open>highs\<close>, as at its only call site, where the three arrays are
  columns of one candle list.
\<close>

definition calculateATR :: "real list \<Rightarrow> real list \<Rightarrow> real list \<Rightarrow> nat \<Rightarrow> real" where
  "calculateATR highs lows closes period =
     (if length highs < period + 1 then 0
      else
        let trueRanges =
              map (\<lambda>i. max (highs ! i - lows ! i)
                         (max \<bar>highs ! i - closes ! (i - 1)\<bar> \<bar>lows ! i - closes ! (i - 1)\<bar>))
                [1 ..< length highs]
        in calculateSMA trueRanges period)"

section \<open>Pattern detector\<close>

text \<open>
  The loop of the Uptrend Structure rule, over \<open>i = 1 .. last5Highs.length - 1\<close>.
  Its state is the pair (higherHighs, higherLows). The reads are array reads: when
  \<open>lows\<close> is shorter than \<open>highs\<close> a read of \<open>last5Lows\<close> is
  \<open>undefined\<close> and its comparison is false.
\<close>

definition uptrend_step :: "real list \<Rightarrow> real list \<Rightarrow> nat \<Rightarrow> bool \<times> bool \<Rightarrow> bool \<times> bool" where
  "uptrend_step last5Highs last5Lows i acc =
     (let higherHighs =
            (if n_le (toNumber (at_index last5Highs (int i)))
                     (toNumber (at_index last5Highs (int i - 1)))
             then False else fst acc);
          higherLows =
            (if n_le (toNumber (at_index last5Lows (int i)))
                     (toNumber (at_index last5Lows (int i - 1)))
             then False else snd acc)
      in (higherHighs, higherLows))"

text \<open>
  \<^verbatim>\<open>detectPatterns(prices, highs, lows)\<close>. The body is a sequence of rule blocks,
  each pushing at most two entries onto \<open>patterns\<close>; every block is a definition
  below, taking the locals it reads, and \<open>detectPatterns\<close> appends their entries in
  the order of the source.
\<close>

text \<open>Golden Cross and Death Cross, under the guard \<open>prices.length >= 200\<close>.\<close>

definition crossPatterns :: "real list \<Rightarrow> real \<Rightarrow> real \<Rightarrow> Pattern list" where
  "crossPatterns prices ma50 ma200 =
     (if length prices \<ge> 200 then
        let prevSma50 = calculateSMA (slice prices 0 (- 1)) 50;
            prevSma200 = calculateSMA (slice prices 0 (- 1)) 200
        in (if prevSma50 < prevSma200 \<and> ma50 > ma200 then
              [\<lparr>p_name = ''Golden Cross'', p_type = bullish, p_confidence = 85,
                p_description = ''50 SMA crossed above 200 SMA - major bullish signal''\<rparr>]
            else [])
           @ (if prevSma50 > prevSma200 \<and> ma50 < ma200 then
                [\<lparr>p_name = ''Death Cross'', p_type = bearish, p_confidence = 85,
                  p_description = ''50 SMA crossed below 200 SMA - major bearish signal''\<rparr>]
              else [])
      else [])"

text \<open>Price above or below both moving averages.\<close>

definition trendPatterns :: "number \<Rightarrow> real \<Rightarrow> real \<Rightarrow> Pattern list" where
  "trendPatterns currentPrice ma50 ma200 =
     (if n_gt currentPrice (Fin ma200) \<and> n_gt currentPrice (Fin ma50) then
        [\<lparr>p_name = ''Bullish Trend'', p_type = bullish, p_confidence = 70,
          p_description = ''Price above both 50 and 200 SMA''\<rparr>]
      else if n_lt currentPrice (Fin ma200) \<and> n_lt currentPrice (Fin ma50) then
        [\<lparr>p_name = ''Bearish Trend'', p_type = bearish, p_confidence = 70,
          p_description = ''Price below both 50 and 200 SMA''\<rparr>]
      else [])"

text \<open>Support and resistance tests over the last 20 lows and highs.\<close>

definition supportResistancePatterns :: "number \<Rightarrow> real list \<Rightarrow> real list \<Rightarrow> Pattern list" where
  "supportResistancePatterns currentPrice highs lows =
     (let recentLow = Math_min (slice_from lows (- 20));
          recentHigh = Math_max (slice_from highs (- 20))
      in (if n_le currentPrice (n_times recentLow 1.02) then
            [\<lparr>p_name = ''Support Test'', p_type = bullish, p_confidence = 60,
              p_description = ''Testing support at $'' @ toFixed recentLow 0\<rparr>]
          else [])
         @ (if n_ge currentPrice (n_times recentHigh 0.98) then
              [\<lparr>p_name = ''Resistance Test'', p_type = bearish, p_confidence = 60,
                p_description = ''Testing resistance at $'' @ toFixed recentHigh 0\<rparr>]
            else []))"

text \<open>Higher highs and higher lows over the last 5 bars.\<close>

definition uptrendPatterns :: "real list \<Rightarrow> real list \<Rightarrow> Pattern list" where
  "uptrendPatterns highs lows =
     (let last5Highs = slice_from highs (- 5);
          last5Lows = slice_from lows (- 5);
          hh = fold (uptrend_step last5Highs last5Lows) [1 ..< length last5Highs] (True, True)
      in if fst hh \<and> snd hh then
           [\<lparr>p_name = ''Uptrend Structure'', p_type = bullish, p_confidence = 75,
             p_description = ''Higher highs and higher lows forming''\<rparr>]
         else [])"

text \<open>\<open>currentPrice\<close> is \<open>undefined\<close> for an empty \<open>prices\<close>.\<close>

definition detectPatterns :: "real list \<Rightarrow> real list \<Rightarrow> real list \<Rightarrow> Pattern list" where
  "detectPatterns prices highs lows =
     (let currentPrice = toNumber (at_index prices (int (length prices) - 1));
          sma20 = calculateSMA prices 20;
          sma50 = calculateSMA prices 50;
          sma200 = calculateSMA prices 200
      in crossPatterns prices sma50 sma200
         @ trendPatterns currentPrice sma50 sma200
         @ supportResistancePatterns currentPrice highs lows
         @ uptrendPatterns highs lows)"

section \<open>Signal generator\<close>

text \<open>
  \<^verbatim>\<open>generateSignals(indicators)\<close>. The body is one block per rule, each pushing
  one entry (the last two blocks: at most one); every block is a definition below and
  \<open>generateSignals\<close> appends their entries in the order of the source.
\<close>

definition rsiSignal :: "TechnicalIndicators \<Rightarrow> Signal" where
  "rsiSignal indicators =
     (if n_lt (rsi14 indicators) (Fin 30) then
        \<lparr>s_indicator = ''RSI (14)'', s_signal = BUY, s_value = rsi14 indicators,
         s_description = ''Oversold - potential bounce''\<rparr>
      else if n_gt (rsi14 indicators) (Fin 70) then
        \<lparr>s_indicator = ''RSI (14)'', s_signal = SELL, s_value = rsi14 indicators,
         s_description = ''Overbought - potential pullback''\<rparr>
      else
        \<lparr>s_indicator = ''RSI (14)'', s_signal = NEUTRAL, s_value = rsi14 indicators,
         s_description = ''Neutral zone''\<rparr>)"

definition macdSignal :: "TechnicalIndicators \<Rightarrow> Signal" where
  "macdSignal indicators =
     (if n_gt (m_histogram (macd indicators)) (Fin 0)
         \<and> n_gt (m_macd (macd indicators)) (m_signal (macd indicators)) then
        \<lparr>s_indicator = ''MACD'', s_signal = BUY, s_value = m_histogram (macd indicators),
         s_description = ''Bullish momentum''\<rparr>
      else if n_lt (m_histogram (macd indicators)) (Fin 0) then
        \<lparr>s_indicator = ''MACD'', s_signal = SELL, s_value = m_histogram (macd indicators),
         s_description = ''Bearish momentum''\<rparr>
      else
        \<lparr>s_indicator = ''MACD'', s_signal = NEUTRAL,
         s_value = m_histogram (macd indicators),
         s_description = ''Neutral momentum''\<rparr>)"

definition maAlignmentSignal :: "TechnicalIndicators \<Rightarrow> Signal" where
  "maAlignmentSignal indicators =
     (if price indicators > sma20 indicators \<and> sma20 indicators > sma50 indicators then
        \<lparr>s_indicator = ''MA Alignment'', s_signal = BUY, s_value = Fin (sma20 indicators),
         s_description = ''Price > SMA20 > SMA50 - bullish alignment''\<rparr>
      else if price indicators < sma20 indicators \<and> sma20 indicators < sma50 indicators then
        \<lparr>s_indicator = ''MA Alignment'', s_signal = SELL, s_value = Fin (sma20 indicators),
         s_description = ''Price < SMA20 < SMA50 - bearish alignment''\<rparr>
      else
        \<lparr>s_indicator = ''MA Alignment'', s_signal = NEUTRAL, s_value = Fin (sma20 indicators),
         s_description = ''Mixed MA signals''\<rparr>)"

definition bollingerSignal :: "TechnicalIndicators \<Rightarrow> Signal" where
  "bollingerSignal indicators =
     (if price indicators \<le> b_lower (bollingerBands indicators) then
        \<lparr>s_indicator = ''Bollinger Bands'', s_signal = BUY, s_value = Fin (price indicators),
         s_description = ''Price at lower band - oversold''\<rparr>
      else if price indicators \<ge> b_upper (bollingerBands indicators) then
        \<lparr>s_indicator = ''Bollinger Bands'', s_signal = SELL, s_value = Fin (price indicators),
         s_description = ''Price at upper band - overbought''\<rparr>
      else
        \<lparr>s_indicator = ''Bollinger Bands'', s_signal = NEUTRAL,
         s_value = Fin (price indicators),
         s_description = ''Price within bands''\<rparr>)"

definition volumeSignals :: "TechnicalIndicators \<Rightarrow> Signal list" where
  "volumeSignals indicators =
     (if n_gt (volumeRatio indicators) (Fin 2) then
        [\<lparr>s_indicator = ''Volume'',
          s_signal = (if price indicators > sma20 indicators then BUY else SELL),
          s_value = volumeRatio indicators,
          s_description =
            ''Volume '' @ toFixed (volumeRatio indicators) 1 @ ''x average - high activity''\<rparr>]
      else [])"

definition fundingSignals :: "TechnicalIndicators \<Rightarrow> Signal list" where
  "fundingSignals indicators =
     (if fundingRate indicators < - 0.01 then
        [\<lparr>s_indicator = ''Funding Rate'', s_signal = BUY,
          s_value = Fin (fundingRate indicators),
          s_description = ''Negative funding - shorts paying longs''\<rparr>]
      else if fundingRate indicators > 0.05 then
        [\<lparr>s_indicator = ''Funding Rate'', s_signal = SELL,
          s_value = Fin (fundingRate indicators),
          s_description = ''High positive funding - longs overleveraged''\<rparr>]
      else [])"

definition generateSignals :: "TechnicalIndicators \<Rightarrow> Signal list" where
  "generateSignals indicators =
     [rsiSignal indicators]
     @ [macdSignal indicators]
     @ [maAlignmentSignal indicators]
     @ [bollingerSignal indicators]
     @ volumeSignals indicators
     @ fundingSignals indicators"

section \<open>Sentiment aggregator\<close>

text \<open>\<^verbatim>\<open>calculateSentimentScore(signals)\<close>: the \<open>forEach\<close> loop, then the clamp.\<close>

definition calculateSentimentScore :: "Signal list \<Rightarrow> real" where
  "calculateSentimentScore sigs =
     (let score = foldl (\<lambda>score sg.
                     if s_signal sg = BUY then score + 20
                     else if s_signal sg = SELL then score - 20
                     else score) 0 sigs
      in max (- 100) (min 100 score))"

text \<open>
  The parts of the body of \<^verbatim>\<open>getMarketSentiment\<close> that follow: the pattern
  influence (the \<open>forEach\<close> over the patterns), the clamp of the combined total, the
  classification bands and the summary text.
\<close>

definition patternScore :: "Pattern list \<Rightarrow> real" where
  "patternScore pats =
     foldl (\<lambda>patternScore p.
        if p_type p = bullish then patternScore + p_confidence p * 0.2
        else if p_type p = bearish then patternScore - p_confidence p * 0.2
        else patternScore) 0 pats"

definition finalScore :: "Signal list \<Rightarrow> Pattern list \<Rightarrow> real" where
  "finalScore sigs pats =
     max (- 100) (min 100 (calculateSentimentScore sigs + patternScore pats))"

definition classify :: "real \<Rightarrow> overall_kind" where
  "classify fs =
     (if fs \<ge> 60 then STRONG_BUY
      else if fs \<ge> 20 then OVERALL_BUY
      else if fs \<le> - 60 then STRONG_SELL
      else if fs \<le> - 20 then OVERALL_SELL
      else OVERALL_NEUTRAL)"

definition summaryText ::
  "string \<Rightarrow> overall_kind \<Rightarrow> Signal list \<Rightarrow> Pattern list \<Rightarrow> TechnicalIndicators \<Rightarrow> real \<Rightarrow> string" where
  "summaryText symb ov sigs pats indicators currentPrice =
     (let buySignals = length (filter (\<lambda>s. s_signal s = BUY) sigs);
          sellSignals = length (filter (\<lambda>s. s_signal s = SELL) sigs);
          bullishPatterns = length (filter (\<lambda>p. p_type p = bullish) pats);
          bearishPatterns = length (filter (\<lambda>p. p_type p = bearish) pats)
      in symb @ '' is '' @ replace_first CHR ''_'' CHR '' '' (overall_string ov) @ ''. ''
         @ string_of_nat buySignals @ '' buy signals, ''
         @ string_of_nat sellSignals @ '' sell signals. ''
         @ (if bullishPatterns > 0
            then string_of_nat bullishPatterns @ '' bullish pattern(s). '' else [])
         @ (if bearishPatterns > 0
            then string_of_nat bearishPatterns @ '' bearish pattern(s). '' else [])
         @ ''RSI: '' @ toFixed (rsi14 indicators) 1
         @ '', Price vs SMA200: ''
         @ toFixed (n_times (n_minus (js_div currentPrice (sma200 indicators)) 1) 100) 1
         @ ''%'')"

text \<open>
  The callback that \<^verbatim>\<open>getMarketSentiment(symbol)\<close> hands to \<open>withCache\<close>.
  The candles \<open>ohlcv\<close> are what \<open>fetchOHLCV\<close> returned (the empty list when the
  request failed) and \<open>now\<close> is the reading of \<open>Date.now()\<close> taken when the
  result is built.
\<close>

definition getMarketSentiment_body :: "string \<Rightarrow> Candle list \<Rightarrow> int \<Rightarrow> MarketSentiment" where
  "getMarketSentiment_body symb ohlcv now =
     (if length ohlcv < 50 then
        \<lparr>symbol = symb, overall = OVERALL_NEUTRAL, score = 0, signals = [], patterns = [],
         summary = ''Insufficient data for analysis'', timestamp = now\<rparr>
      else
        let closes = map c_close ohlcv;
            highs = map c_high ohlcv;
            lows = map c_low ohlcv;
            volumes = map c_volume ohlcv;
            currentPrice = closes ! (length closes - 1);
            indicators =
              \<lparr>ti_symbol = symb,
               price = currentPrice,
               sma20 = calculateSMA closes 20,
               sma50 = calculateSMA closes 50,
               sma200 = calculateSMA closes 200,
               ema12 = calculateEMA closes 12,
               ema26 = calculateEMA closes 26,
               rsi14 = calculateRSI closes 14,
               macd = calculateMACD closes,
               atr14 = calculateATR highs lows closes 14,
               bollingerBands = calculateBollingerBands closes 20,
               volumeSma20 = calculateSMA volumes 20,
               volumeRatio = js_div (volumes ! (length volumes - 1)) (calculateSMA volumes 20),
               fundingRate = 0,
               openInterest = 0\<rparr>;
            sigs = generateSignals indicators;
            pats = detectPatterns closes highs lows;
            fs = finalScore sigs pats;
            ov = classify fs
        in \<lparr>symbol = symb, overall = ov, score = fs, signals = sigs, patterns = pats,
            summary = summaryText symb ov sigs pats indicators currentPrice,
            timestamp = now\<rparr>)"

section \<open>The memoisation wrapper\<close>

text \<open>
  \<^verbatim>\<open>src/lib/cache.ts\<close>: the cache is a \<open>Map\<close> from keys to entries, here an
  association list in insertion order, passed in and returned. \<open>get\<close> reads the
  clock only when the key is present.
\<close>

record 'a CacheEntry =
  data :: 'a
  expiresAt :: int

type_synonym 'a MemoryCache = "(string \<times> 'a CacheEntry) list"

definition cache_get :: "'a MemoryCache \<Rightarrow> string \<Rightarrow> int \<Rightarrow> 'a option \<times> 'a MemoryCache" where
  "cache_get c key now =
     (case map_of c key of
        None \<Rightarrow> (None, c)
      | Some entry \<Rightarrow>
          if now > expiresAt entry then (None, AList.delete key c)
          else (Some (data entry), c))"

definition cache_set :: "'a MemoryCache \<Rightarrow> string \<Rightarrow> 'a \<Rightarrow> int \<Rightarrow> int \<Rightarrow> 'a MemoryCache" where
  "cache_set c key d ttlSeconds now =
     AList.update key \<lparr>data = d, expiresAt = now + ttlSeconds * 1000\<rparr> c"

text \<open>
  \<^verbatim>\<open>withCache(key, ttlSeconds, fetchFn)\<close>: \<open>fetched\<close> is what \<open>fetchFn\<close>
  returns when it is called, \<open>t_get\<close> and \<open>t_set\<close> are the clock readings inside
  \<open>get\<close> and \<open>set\<close>.
\<close>

definition withCache ::
  "'a MemoryCache \<Rightarrow> string \<Rightarrow> int \<Rightarrow> 'a \<Rightarrow> int \<Rightarrow> int \<Rightarrow> 'a \<times> 'a MemoryCache" where
  "withCache c key ttlSeconds fetched t_get t_set =
     (case cache_get c key t_get of
        (Some cached, c') \<Rightarrow> (cached, c')
      | (None, c') \<Rightarrow> (fetched, cache_set c' key fetched ttlSeconds t_set))"

text \<open>
  \<^verbatim>\<open>getMarketSentiment(symbol)\<close>: \<open>ohlcv\<close> is what the fetch returns if the cache
  misses, and \<open>t_get\<close>, \<open>t_now\<close>, \<open>t_set\<close> are the successive clock readings.
\<close>

definition getMarketSentiment ::
  "MarketSentiment MemoryCache \<Rightarrow> string \<Rightarrow> Candle list \<Rightarrow> int \<Rightarrow> int \<Rightarrow> int
     \<Rightarrow> MarketSentiment \<times> MarketSentiment MemoryCache" where
  "getMarketSentiment c symb ohlcv t_get t_now t_set =
     withCache c (''sentiment:'' @ symb) 60 (getMarketSentiment_body symb ohlcv t_now) t_get t_set"

text \<open>
  The entry of a symbol in the cache, if there is one, is an evaluation of the candles
  \<open>ohlcv\<close>: what every call of \<^verbatim>\<open>getMarketSentiment\<close> for that symbol
  stores while the fetch keeps returning \<open>ohlcv\<close>.
\<close>

definition stored_from :: "MarketSentiment MemoryCache \<Rightarrow> string \<Rightarrow> Candle list \<Rightarrow> bool" where
  "stored_from c symb ohlcv =
     (case map_of c (''sentiment:'' @ symb) of
        None \<Rightarrow> True
      | Some entry \<Rightarrow>
          data entry = getMarketSentiment_body symb ohlcv (timestamp (data entry)))"

section \<open>Helper facts\<close>



lemma slice_butlast: "slice xs 0 (- 1) = butlast xs"
  by (simp add: slice_def rel_index_def butlast_conv_take nat_diff_distrib' max_def)


section \<open>Facts about rounding\<close>

lemma pow2_pos [simp]: "0 < pow2 e"
  by (simp add: pow2_def)

lemma pow2_nonneg [simp]: "0 \<le> pow2 e"
  by (simp add: pow2_def)

lemma pow2_nonzero [simp]: "pow2 e \<noteq> 0"
  by (simp add: pow2_def)

lemma pow2_add: "pow2 (a + b) = pow2 a * pow2 b"
  by (simp add: pow2_def power_int_add)

lemma pow2_mono: "a \<le> b \<Longrightarrow> pow2 a \<le> pow2 b"
  by (simp add: pow2_def power_int_increasing)

lemma pow2_strict_mono: "a < b \<Longrightarrow> pow2 a < pow2 b"
  by (simp add: pow2_def power_int_strict_increasing)

lemma pow2_less_imp: "pow2 a < pow2 b \<Longrightarrow> a < b"
  using pow2_mono [of b a] by (cases "a < b") auto

lemma pow2_le_imp: "pow2 a \<le> pow2 b \<Longrightarrow> a \<le> b"
  using pow2_strict_mono [of b a] by (cases "a \<le> b") auto

lemma pow2_nat: "0 \<le> e \<Longrightarrow> pow2 e = of_int (2 ^ nat e)"
  by (simp add: pow2_def power_int_def)

lemma pow2_0 [simp]: "pow2 0 = 1"
  by (simp add: pow2_def)

lemma ulp_search_ge: "e \<le> ulp_search fuel e a"
proof (induction fuel arbitrary: e)
  case 0
  then show ?case by simp
next
  case (Suc fuel)
  from Suc [of "e + 1"] show ?case by simp
qed

lemma ulp_search_le: "ulp_search fuel e a \<le> e + int fuel"
proof (induction fuel arbitrary: e)
  case 0
  then show ?case by simp
next
  case (Suc fuel)
  from Suc [of "e + 1"] show ?case by simp
qed

lemma ulp_search_upper:
  "ulp_search fuel e a < e + int fuel \<Longrightarrow> a < pow2 (ulp_search fuel e a + 53)"
proof (induction fuel arbitrary: e)
  case 0
  then show ?case by simp
next
  case (Suc fuel)
  show ?case
  proof (cases "a < pow2 (e + 53)")
    case True
    then show ?thesis by simp
  next
    case False
    with Suc.prems have "ulp_search fuel (e + 1) a < (e + 1) + int fuel" by simp
    from Suc.IH [OF this] False show ?thesis by simp
  qed
qed

lemma ulp_search_lower:
  "e < ulp_search fuel e a \<Longrightarrow> pow2 (ulp_search fuel e a + 52) \<le> a"
proof (induction fuel arbitrary: e)
  case 0
  then show ?case by simp
next
  case (Suc fuel)
  show ?case
  proof (cases "a < pow2 (e + 53)")
    case True
    with Suc.prems show ?thesis by simp
  next
    case False
    then have r: "ulp_search (Suc fuel) e a = ulp_search fuel (e + 1) a" by simp
    show ?thesis
    proof (cases "e + 1 < ulp_search fuel (e + 1) a")
      case True
      from Suc.IH [OF True] r show ?thesis by simp
    next
      case f: False
      with ulp_search_ge [of "e + 1" fuel a] have "ulp_search fuel (e + 1) a = e + 1" by simp
      with r False show ?thesis by (simp add: add.commute add.left_commute)
    qed
  qed
qed

lemma ulp_exp_ge: "- 1074 \<le> ulp_exp a"
  unfolding ulp_exp_def by (rule ulp_search_ge)

lemma ulp_exp_le: "ulp_exp a \<le> 972"
  using ulp_search_le [of 2046 "- 1074" a] by (simp add: ulp_exp_def)

lemma ulp_exp_lower: "- 1074 < ulp_exp a \<Longrightarrow> pow2 (ulp_exp a + 52) \<le> a"
  unfolding ulp_exp_def by (rule ulp_search_lower)

lemma ulp_exp_upper:
  assumes "a < pow2 1024"
  shows "a < pow2 (ulp_exp a + 53)" and "ulp_exp a \<le> 971"
proof -
  have lt: "ulp_exp a < 972"
  proof (rule ccontr)
    assume "\<not> ulp_exp a < 972"
    with ulp_exp_le [of a] have e: "ulp_exp a = 972" by simp
    then have "pow2 (ulp_exp a + 52) \<le> a" by (intro ulp_exp_lower) simp
    with e assms show False by simp
  qed
  then show "ulp_exp a \<le> 971" by simp
  from lt have "ulp_search 2046 (- 1074) a < - 1074 + int 2046" by (simp add: ulp_exp_def)
  from ulp_search_upper [OF this] show "a < pow2 (ulp_exp a + 53)" by (simp add: ulp_exp_def)
qed

lemma ulp_exp_eq:
  assumes "- 1074 \<le> e" "e \<le> 971" "e = - 1074 \<or> pow2 (e + 52) \<le> a" "a < pow2 (e + 53)"
  shows "ulp_exp a = e"
proof -
  have "pow2 (e + 53) \<le> pow2 1024" using assms(2) by (intro pow2_mono) simp
  with assms(4) have a: "a < pow2 1024" by simp
  note u = ulp_exp_upper [OF a]
  have le: "ulp_exp a \<le> e"
  proof (rule ccontr)
    assume "\<not> ulp_exp a \<le> e"
    then have gt: "e < ulp_exp a" by simp
    with assms(1) have "pow2 (ulp_exp a + 52) \<le> a" by (intro ulp_exp_lower) simp
    moreover from gt have "pow2 (e + 53) \<le> pow2 (ulp_exp a + 52)" by (intro pow2_mono) simp
    ultimately show False using assms(4) by simp
  qed
  have ge: "e \<le> ulp_exp a"
  proof (rule ccontr)
    assume "\<not> e \<le> ulp_exp a"
    then have lt: "ulp_exp a < e" by simp
    with ulp_exp_ge [of a] have "e \<noteq> - 1074" by simp
    with assms(3) have "pow2 (e + 52) \<le> a" by simp
    moreover from lt have "pow2 (ulp_exp a + 53) \<le> pow2 (e + 52)" by (intro pow2_mono) simp
    ultimately show False using u(1) by simp
  qed
  from le ge show ?thesis by simp
qed

lemma rhe_ge: "of_int N \<le> q \<Longrightarrow> N \<le> round_half_even q"
proof -
  assume "of_int N \<le> q"
  then have "N \<le> \<lfloor>q\<rfloor>" by (simp add: le_floor_iff)
  then show ?thesis by (simp add: round_half_even_def Let_def)
qed

lemma rhe_le: "q \<le> of_int N \<Longrightarrow> round_half_even q \<le> N"
proof -
  assume a: "q \<le> of_int N"
  then have f: "\<lfloor>q\<rfloor> \<le> N" by (simp add: floor_le_iff)
  have "\<lfloor>q\<rfloor> + 1 \<le> N" if "q - of_int \<lfloor>q\<rfloor> \<ge> 1 / 2"
  proof -
    from that have "of_int \<lfloor>q\<rfloor> < q" by simp
    with a have "(of_int \<lfloor>q\<rfloor> :: real) < of_int N" by simp
    then show ?thesis by simp
  qed
  with f show ?thesis by (auto simp: round_half_even_def Let_def)
qed

lemma rhe_err: "\<bar>of_int (round_half_even q) - q\<bar> \<le> 1 / 2"
proof -
  have "of_int \<lfloor>q\<rfloor> \<le> q" "q < of_int \<lfloor>q\<rfloor> + 1" by linarith+
  then show ?thesis by (auto simp: round_half_even_def Let_def)
qed

lemma rnd_0 [simp]: "rnd 0 = Fin 0"
  by (simp add: rnd_def)

lemma rnd_pos:
  "0 < x \<Longrightarrow> rnd x =
     (if of_int (round_half_even (x / pow2 (ulp_exp x))) * pow2 (ulp_exp x) \<ge> pow2 1024
      then PosInf
      else Fin (of_int (round_half_even (x / pow2 (ulp_exp x))) * pow2 (ulp_exp x)))"
  by (simp add: rnd_def Let_def)

lemma rnd_neg: "rnd (- x) = n_neg (rnd x)"
  by (simp add: rnd_def Let_def)

lemma pow2_diff_int:
  assumes "e \<le> k"
  shows "pow2 k = of_int (2 ^ nat (k - e)) * pow2 e"
proof -
  have "pow2 k = pow2 ((k - e) + e)" by simp
  also have "\<dots> = pow2 (k - e) * pow2 e" by (rule pow2_add)
  also have "pow2 (k - e) = of_int (2 ^ nat (k - e))" using assms by (intro pow2_nat) simp
  finally show ?thesis .
qed

lemma rnd_le_double:
  assumes x: "0 < x" "x \<le> of_int m * pow2 k" and m: "m < 2 ^ 53" and k: "- 1074 \<le> k" "k \<le> 971"
  shows "\<exists>z. rnd x = Fin z \<and> 0 \<le> z \<and> z \<le> of_int m * pow2 k"
proof -
  let ?e = "ulp_exp x"
  let ?n = "round_half_even (x / pow2 ?e)"
  have "(of_int m :: real) < of_int (2 ^ 53)" using m by (simp only: of_int_less_iff)
  then have "of_int m * pow2 k < of_int (2 ^ 53) * pow2 k" by simp
  also have "\<dots> = pow2 (k + 53)" using pow2_add [of k 53] by (simp add: pow2_def)
  finally have d: "of_int m * pow2 k < pow2 (k + 53)" .
  have "pow2 (k + 53) \<le> pow2 1024" using k by (intro pow2_mono) simp
  with d have d1024: "of_int m * pow2 k < pow2 1024" by simp
  have ek: "?e \<le> k"
  proof (cases "?e = - 1074")
    case True
    with k show ?thesis by simp
  next
    case False
    with ulp_exp_ge [of x] have "- 1074 < ?e" by simp
    then have "pow2 (?e + 52) \<le> x" by (rule ulp_exp_lower)
    with x d have "pow2 (?e + 52) < pow2 (k + 53)" by simp
    then have "?e + 52 < k + 53" by (rule pow2_less_imp)
    then show ?thesis by simp
  qed
  have dk: "of_int m * pow2 k = of_int (m * 2 ^ nat (k - ?e)) * pow2 ?e"
    using pow2_diff_int [OF ek] by simp
  have "x / pow2 ?e \<le> of_int m * pow2 k / pow2 ?e"
    using x by (intro divide_right_mono) simp_all
  also have "\<dots> = of_int (m * 2 ^ nat (k - ?e))" unfolding dk by simp
  finally have "?n \<le> m * 2 ^ nat (k - ?e)" by (rule rhe_le)
  then have "(of_int ?n :: real) \<le> of_int (m * 2 ^ nat (k - ?e))" by (simp only: of_int_le_iff)
  then have "of_int ?n * pow2 ?e \<le> of_int (m * 2 ^ nat (k - ?e)) * pow2 ?e"
    by (simp add: mult_right_mono)
  then have le: "of_int ?n * pow2 ?e \<le> of_int m * pow2 k" unfolding dk .
  have "of_int 0 \<le> x / pow2 ?e" using x by simp
  then have "0 \<le> ?n" by (rule rhe_ge)
  then have ge: "0 \<le> of_int ?n * pow2 ?e" by simp
  from le d1024 have "\<not> pow2 1024 \<le> of_int ?n * pow2 ?e" by simp
  with rnd_pos [OF x(1)] have "rnd x = Fin (of_int ?n * pow2 ?e)" by simp
  with le ge show ?thesis by blast
qed

lemma rnd_ge_double:
  assumes x: "of_int m * pow2 k \<le> x" and m: "0 < m" "m < 2 ^ 53" and k: "- 1074 \<le> k"
  shows "rnd x = PosInf \<or> (\<exists>z. rnd x = Fin z \<and> of_int m * pow2 k \<le> z)"
proof -
  let ?e = "ulp_exp x"
  let ?n = "round_half_even (x / pow2 ?e)"
  from m have "0 < of_int m * pow2 k" by simp
  with x have xp: "0 < x" by simp
  have "(of_int m :: real) < of_int (2 ^ 53)" using m by (simp only: of_int_less_iff)
  then have "of_int m * pow2 k < of_int (2 ^ 53) * pow2 k" by simp
  also have "\<dots> = pow2 (k + 53)" using pow2_add [of k 53] by (simp add: pow2_def)
  finally have d: "of_int m * pow2 k < pow2 (k + 53)" .
  have ge: "of_int m * pow2 k \<le> of_int ?n * pow2 ?e"
  proof (cases "?e \<le> k")
    case True
    have dk: "of_int m * pow2 k = of_int (m * 2 ^ nat (k - ?e)) * pow2 ?e"
      using pow2_diff_int [OF True] by simp
    have "of_int m * pow2 k / pow2 ?e \<le> x / pow2 ?e"
      using x by (intro divide_right_mono) simp_all
    moreover have "of_int m * pow2 k / pow2 ?e = of_int (m * 2 ^ nat (k - ?e))"
      unfolding dk by simp
    ultimately have "of_int (m * 2 ^ nat (k - ?e)) \<le> x / pow2 ?e" by simp
    then have "m * 2 ^ nat (k - ?e) \<le> ?n" by (rule rhe_ge)
    then have "(of_int (m * 2 ^ nat (k - ?e)) :: real) \<le> of_int ?n" by (simp only: of_int_le_iff)
    then have "of_int (m * 2 ^ nat (k - ?e)) * pow2 ?e \<le> of_int ?n * pow2 ?e"
      by (simp add: mult_right_mono)
    then show ?thesis unfolding dk .
  next
    case False
    then have gt: "k < ?e" by simp
    with k have "- 1074 < ?e" by simp
    then have lo: "pow2 (?e + 52) \<le> x" by (rule ulp_exp_lower)
    have "pow2 (?e + 52) = pow2 52 * pow2 ?e" using pow2_add [of 52 ?e] by (simp add: add.commute)
    with lo have "pow2 52 * pow2 ?e \<le> x" by simp
    then have "pow2 52 \<le> x / pow2 ?e" by (simp add: pos_le_divide_eq)
    moreover have "pow2 52 = of_int (2 ^ 52)" by (simp add: pow2_def)
    ultimately have "of_int (2 ^ 52) \<le> x / pow2 ?e" by simp
    then have "2 ^ 52 \<le> ?n" by (rule rhe_ge)
    then have "(of_int (2 ^ 52) :: real) \<le> of_int ?n" by (simp only: of_int_le_iff)
    then have a: "of_int (2 ^ 52) * pow2 ?e \<le> of_int ?n * pow2 ?e"
      by (intro mult_right_mono) simp_all
    have b: "of_int (2 ^ 52) * pow2 ?e = pow2 (?e + 52)"
      using pow2_add [of 52 ?e] by (simp add: pow2_def add.commute)
    from gt have c: "pow2 (k + 53) \<le> pow2 (?e + 52)" by (intro pow2_mono) simp
    from a b c d show ?thesis by linarith
  qed
  from rnd_pos [OF xp] ge show ?thesis by (cases "pow2 1024 \<le> of_int ?n * pow2 ?e") simp_all
qed

lemma rnd_fin_bound: "rnd x = Fin z \<Longrightarrow> \<bar>z\<bar> < pow2 1024"
proof -
  assume a: "rnd x = Fin z"
  have pos: "rnd y = Fin w \<Longrightarrow> 0 \<le> w \<and> w < pow2 1024" if "0 < y" for y w
  proof -
    assume b: "rnd y = Fin w"
    have "of_int 0 \<le> y / pow2 (ulp_exp y)" using that by simp
    then have "0 \<le> round_half_even (y / pow2 (ulp_exp y))" by (rule rhe_ge)
    then have "0 \<le> of_int (round_half_even (y / pow2 (ulp_exp y))) * pow2 (ulp_exp y)" by simp
    with b rnd_pos [OF that] show ?thesis by (auto split: if_splits)
  qed
  show ?thesis
  proof (cases "x = 0")
    case True
    with a show ?thesis by simp
  next
    case False
    show ?thesis
    proof (cases "0 < x")
      case True
      from pos [OF True a] show ?thesis by simp
    next
      case f: False
      with False have n: "0 < - x" by simp
      from a rnd_neg [of "- x"] have "rnd (- x) = Fin (- z)" by (cases "rnd (- x)") simp_all
      from pos [OF n this] show ?thesis by simp
    qed
  qed
qed

lemma rnd_overflow: "pow2 1024 \<le> x \<Longrightarrow> rnd x = PosInf"
proof -
  assume a: "pow2 1024 \<le> x"
  have "of_int (2 ^ 52) * pow2 972 = pow2 1024" using pow2_add [of 52 972] by (simp add: pow2_def)
  with a have "of_int (2 ^ 52) * pow2 972 \<le> x" by simp
  from rnd_ge_double [OF this] consider "rnd x = PosInf"
    | z where "rnd x = Fin z" "of_int (2 ^ 52) * pow2 972 \<le> z" by auto
  then show ?thesis
  proof cases
    case 1
    then show ?thesis .
  next
    case 2
    from rnd_fin_bound [OF 2(1)] 2(2) \<open>of_int (2 ^ 52) * pow2 972 = pow2 1024\<close>
    show ?thesis by simp
  qed
qed

lemma rnd_nonneg: "0 \<le> x \<Longrightarrow> rnd x = PosInf \<or> (\<exists>z. rnd x = Fin z \<and> 0 \<le> z)"
proof (cases "x = 0")
  case True
  then show ?thesis by simp
next
  case False
  assume "0 \<le> x"
  with False have xp: "0 < x" by simp
  have "of_int 0 \<le> x / pow2 (ulp_exp x)" using xp by simp
  then have "0 \<le> round_half_even (x / pow2 (ulp_exp x))" by (rule rhe_ge)
  then have "0 \<le> of_int (round_half_even (x / pow2 (ulp_exp x))) * pow2 (ulp_exp x)" by simp
  with rnd_pos [OF xp] show ?thesis by simp
qed

lemma rnd_exact:
  assumes "x = of_int m * pow2 k" "\<bar>m\<bar> < 2 ^ 53" "- 1074 \<le> k" "k \<le> 971"
  shows "rnd x = Fin x"
proof -
  have pos: "rnd (of_int n * pow2 k) = Fin (of_int n * pow2 k)" if n: "0 < n" "n < 2 ^ 53" for n
  proof -
    have p: "0 < of_int n * pow2 k" using n by simp
    from rnd_le_double [OF p order_refl n(2) assms(3,4)]
    obtain z where z: "rnd (of_int n * pow2 k) = Fin z" "z \<le> of_int n * pow2 k" by blast
    from rnd_ge_double [OF order_refl n assms(3)] z show ?thesis by auto
  qed
  show ?thesis
  proof (cases "m = 0")
    case True
    with assms show ?thesis by simp
  next
    case False
    show ?thesis
    proof (cases "0 < m")
      case True
      with assms pos [of m] show ?thesis by simp
    next
      case f: False
      with False assms have "0 < - m" "- m < 2 ^ 53" by simp_all
      from pos [OF this] have "rnd (- x) = Fin (- x)" using assms(1) by simp
      with rnd_neg [of x] show ?thesis by (cases "rnd x") simp_all
    qed
  qed
qed

lemma rnd_cert:
  assumes "0 < x" "- 1074 \<le> e" "e \<le> 971" "e = - 1074 \<or> pow2 (e + 52) \<le> x"
    "x < pow2 (e + 53)" "round_half_even (x / pow2 e) = n" "of_int n * pow2 e < pow2 1024"
  shows "rnd x = Fin (of_int n * pow2 e)"
proof -
  have "ulp_exp x = e" using assms(2-5) by (rule ulp_exp_eq)
  with rnd_pos [OF assms(1)] assms(6,7) show ?thesis by simp
qed

lemma rnd_pos_err:
  assumes "0 < y"
  shows "\<exists>V. \<bar>V - y\<bar> \<le> pow2 (ulp_exp y) / 2
            \<and> rnd y = (if pow2 1024 \<le> V then PosInf else Fin V)"
proof -
  let ?e = "ulp_exp y"
  let ?n = "round_half_even (y / pow2 ?e)"
  have "\<bar>of_int ?n - y / pow2 ?e\<bar> \<le> 1 / 2" by (rule rhe_err)
  then have "\<bar>of_int ?n - y / pow2 ?e\<bar> * pow2 ?e \<le> 1 / 2 * pow2 ?e"
    by (intro mult_right_mono) simp_all
  moreover have "\<bar>of_int ?n - y / pow2 ?e\<bar> * pow2 ?e = \<bar>of_int ?n * pow2 ?e - y\<bar>"
  proof -
    have "\<bar>of_int ?n - y / pow2 ?e\<bar> * pow2 ?e = \<bar>(of_int ?n - y / pow2 ?e) * pow2 ?e\<bar>"
      by (simp add: abs_mult)
    also have "(of_int ?n - y / pow2 ?e) * pow2 ?e = of_int ?n * pow2 ?e - y"
      by (simp add: algebra_simps)
    finally show ?thesis .
  qed
  ultimately have "\<bar>of_int ?n * pow2 ?e - y\<bar> \<le> pow2 ?e / 2" by simp
  with rnd_pos [OF assms] show ?thesis by blast
qed

lemma ulp_bound:
  assumes "0 < y"
  shows "pow2 (ulp_exp y) \<le> max (pow2 (- 1074)) (y * pow2 (- 52))"
proof (cases "ulp_exp y = - 1074")
  case True
  then show ?thesis by simp
next
  case False
  with ulp_exp_ge [of y] have "- 1074 < ulp_exp y" by simp
  then have "pow2 (ulp_exp y + 52) \<le> y" by (rule ulp_exp_lower)
  then have "pow2 (ulp_exp y + 52) * pow2 (- 52) \<le> y * pow2 (- 52)"
    by (intro mult_right_mono) simp_all
  moreover have "pow2 (ulp_exp y + 52) * pow2 (- 52) = pow2 (ulp_exp y)"
    using pow2_add [of "ulp_exp y + 52" "- 52"] by simp
  ultimately show ?thesis by simp
qed

lemma rnd_grid: "rnd x = Fin z \<Longrightarrow> \<exists>n::int. z = of_int n * pow2 (- 1074)"
proof -
  assume a: "rnd x = Fin z"
  have pos: "\<exists>n::int. w = of_int n * pow2 (- 1074)" if y: "0 < y" and w: "rnd y = Fin w" for y w
  proof -
    let ?e = "ulp_exp y"
    let ?n = "round_half_even (y / pow2 ?e)"
    from w rnd_pos [OF y] have "w = of_int ?n * pow2 ?e" by (auto split: if_splits)
    then obtain n :: int where n: "w = of_int n * pow2 ?e" by blast
    have "pow2 ?e = of_int (2 ^ nat (?e - (- 1074))) * pow2 (- 1074)"
      using ulp_exp_ge [of y] by (intro pow2_diff_int)
    then obtain K :: int where K: "pow2 ?e = of_int K * pow2 (- 1074)" by blast
    have "w = of_int (n * K) * pow2 (- 1074)" unfolding n K by simp
    then show ?thesis by blast
  qed
  show ?thesis
  proof (cases "x = 0")
    case True
    with a have "z = of_int 0 * pow2 (- 1074)" by simp
    then show ?thesis by blast
  next
    case False
    show ?thesis
    proof (cases "0 < x")
      case True
      from pos [OF True a] show ?thesis .
    next
      case f: False
      with False have n: "0 < - x" by simp
      from a rnd_neg [of "- x"] have "rnd (- x) = Fin (- z)" by (cases "rnd (- x)") simp_all
      from pos [OF n this] obtain k :: int where "- z = of_int k * pow2 (- 1074)" by blast
      then have "z = of_int (- k) * pow2 (- 1074)" by simp
      then show ?thesis by blast
    qed
  qed
qed

lemma rnd_idem:
  assumes "rnd x = Fin v"
  shows "rnd v = Fin v"
proof -
  have pos: "rnd w = Fin w" if y: "0 < y" and w: "rnd y = Fin w" for y w
  proof -
    let ?e = "ulp_exp y"
    let ?n = "round_half_even (y / pow2 ?e)"
    from w rnd_pos [OF y] have wv: "w = of_int ?n * pow2 ?e" and wb: "w < pow2 1024"
      by (auto split: if_splits)
    have y1024: "y < pow2 1024"
    proof (rule ccontr)
      assume "\<not> y < pow2 1024"
      then have "rnd y = PosInf" by (intro rnd_overflow) simp
      with w show False by simp
    qed
    note u = ulp_exp_upper [OF y1024]
    have "pow2 (?e + 53) = of_int (2 ^ 53) * pow2 ?e"
      using pow2_add [of 53 ?e] by (simp add: pow2_def add.commute)
    with u(1) have "y < of_int (2 ^ 53) * pow2 ?e" by simp
    then have "y / pow2 ?e \<le> of_int (2 ^ 53)" by (simp add: pos_divide_le_eq)
    then have nle: "?n \<le> 2 ^ 53" by (rule rhe_le)
    have "of_int 0 \<le> y / pow2 ?e" using y by simp
    then have nge: "0 \<le> ?n" by (rule rhe_ge)
    show ?thesis
    proof (cases "?n = 2 ^ 53")
      case False
      with nle nge have "\<bar>?n\<bar> < 2 ^ 53" by simp
      from rnd_exact [OF wv this ulp_exp_ge u(2)] show ?thesis .
    next
      case True
      have p: "pow2 (?e + 1) = 2 * pow2 ?e" using pow2_add [of 1 ?e] by (simp add: pow2_def add.commute)
      from True wv have w53: "w = of_int (2 ^ 53) * pow2 ?e" by simp
      then have w52: "w = of_int (2 ^ 52) * pow2 (?e + 1)" unfolding p by simp
      have "pow2 (?e + 53) = of_int (2 ^ 53) * pow2 ?e"
        using pow2_add [of 53 ?e] by (simp add: pow2_def add.commute)
      with w53 wb have "pow2 (?e + 53) < pow2 1024" by simp
      then have "?e + 53 < 1024" by (rule pow2_less_imp)
      then have e: "?e + 1 \<le> 971" by simp
      from ulp_exp_ge [of y] have e': "- 1074 \<le> ?e + 1" by simp
      have "\<bar>2 ^ 52 :: int\<bar> < 2 ^ 53" by simp
      from rnd_exact [OF w52 this e' e] show ?thesis .
    qed
  qed
  show ?thesis
  proof (cases "x = 0")
    case True
    with assms show ?thesis by auto
  next
    case False
    show ?thesis
    proof (cases "0 < x")
      case True
      from pos [OF True assms] show ?thesis .
    next
      case f: False
      with False have n: "0 < - x" by simp
      from assms rnd_neg [of "- x"] have "rnd (- x) = Fin (- v)" by (cases "rnd (- x)") simp_all
      from pos [OF n this] rnd_neg [of v] show ?thesis by (cases "rnd v") simp_all
    qed
  qed
qed

lemma is_double_rnd: "is_double (rnd x)"
  by (cases "rnd x") (simp_all add: rnd_idem)

lemma is_double_d_sub_Fin: "is_double (d_sub (Fin a) (Fin b))"
  by (simp add: d_sub_def is_double_rnd)

section \<open>Simple moving average\<close>



section \<open>Insufficient data\<close>

text \<open>
  C1. On fewer than 50 candles the evaluation returns NEUTRAL, score 0, no signals, no
  patterns and the fixed summary text, whatever the candles hold.
\<close>

theorem insufficient_data_short_circuit:
  assumes "length ohlcv < 50"
  shows "getMarketSentiment_body symb ohlcv now =
           \<lparr>symbol = symb, overall = OVERALL_NEUTRAL, score = 0, signals = [], patterns = [],
            summary = ''Insufficient data for analysis'', timestamp = now\<rparr>"
  using assms by (simp add: getMarketSentiment_body_def)

theorem insufficient_data_short_circuit_witness:
  "length (replicate 49 \<lparr>c_time = 0, c_open = 1, c_high = 2, c_low = 1, c_close = 2,
                           c_volume = 10\<rparr>) < 50
   \<and> getMarketSentiment_body ''BTC''
        (replicate 49 \<lparr>c_time = 0, c_open = 1, c_high = 2, c_low = 1, c_close = 2,
                        c_volume = 10\<rparr>) 1700000000000 =
        \<lparr>symbol = ''BTC'', overall = OVERALL_NEUTRAL, score = 0, signals = [], patterns = [],
         summary = ''Insufficient data for analysis'', timestamp = 1700000000000\<rparr>"
proof -
  have len: "length (replicate 49 \<lparr>c_time = 0, c_open = 1, c_high = 2, c_low = 1,
                                    c_close = 2, c_volume = 10\<rparr>) < 50"
    by simp
  from len insufficient_data_short_circuit [OF len] show ?thesis by blast
qed

section \<open>Score bounds\<close>

lemma score_fold:
  "foldl (\<lambda>score sg. if s_signal sg = BUY then score + 20
                       else if s_signal sg = SELL then score - 20 else score) a sigs
   = a + (\<Sum>sg\<leftarrow>sigs. if s_signal sg = BUY then 20
                       else if s_signal sg = SELL then - 20 else (0::real))"
  by (induction sigs arbitrary: a) simp_all

lemma patternScore_fold:
  "foldl (\<lambda>patternScore p.
        if p_type p = bullish then patternScore + p_confidence p * 0.2
        else if p_type p = bearish then patternScore - p_confidence p * 0.2
        else patternScore) a pats
   = a + (\<Sum>p\<leftarrow>pats. if p_type p = bullish then p_confidence p * 0.2
                      else if p_type p = bearish then - (p_confidence p * 0.2) else 0)"
  by (induction pats arbitrary: a) simp_all

lemma finalScore_range: "- 100 \<le> finalScore sigs pats \<and> finalScore sigs pats \<le> 100"
  by (simp add: finalScore_def)

lemma body_score:
  "score (getMarketSentiment_body symb ohlcv now) =
     (if length ohlcv < 50 then 0
      else finalScore (signals (getMarketSentiment_body symb ohlcv now))
                      (patterns (getMarketSentiment_body symb ohlcv now)))"
  by (simp add: getMarketSentiment_body_def Let_def)

text \<open>
  C2. The base score is the clamped sum of +20 per BUY and -20 per SELL, the pattern
  delta is the sum of +0.2 confidence per bullish and -0.2 confidence per bearish
  pattern, the final score is the clamp of base plus delta, and the score of every
  evaluation lies in [-100, 100], for any signals and any patterns.
\<close>

theorem score_clamped_twice:
  "calculateSentimentScore sigs =
      max (- 100) (min 100
        (\<Sum>sg\<leftarrow>sigs. if s_signal sg = BUY then 20
                    else if s_signal sg = SELL then - 20 else 0))
   \<and> patternScore pats =
        (\<Sum>p\<leftarrow>pats. if p_type p = bullish then p_confidence p * 0.2
                   else if p_type p = bearish then - (p_confidence p * 0.2) else 0)
   \<and> finalScore sigs pats =
        max (- 100) (min 100 (calculateSentimentScore sigs + patternScore pats))
   \<and> - 100 \<le> finalScore sigs pats \<and> finalScore sigs pats \<le> 100
   \<and> score (getMarketSentiment_body symb ohlcv now) =
        (if length ohlcv < 50 then 0
         else finalScore (signals (getMarketSentiment_body symb ohlcv now))
                         (patterns (getMarketSentiment_body symb ohlcv now)))
   \<and> - 100 \<le> score (getMarketSentiment_body symb ohlcv now)
   \<and> score (getMarketSentiment_body symb ohlcv now) \<le> 100"
proof -
  have a: "calculateSentimentScore sigs =
      max (- 100) (min 100
        (\<Sum>sg\<leftarrow>sigs. if s_signal sg = BUY then 20
                    else if s_signal sg = SELL then - 20 else 0))"
    by (simp add: calculateSentimentScore_def score_fold)
  have b: "patternScore pats =
        (\<Sum>p\<leftarrow>pats. if p_type p = bullish then p_confidence p * 0.2
                   else if p_type p = bearish then - (p_confidence p * 0.2) else 0)"
    by (simp add: patternScore_def patternScore_fold)
  have c: "finalScore sigs pats =
        max (- 100) (min 100 (calculateSentimentScore sigs + patternScore pats))"
    by (simp add: finalScore_def)
  have e: "- 100 \<le> score (getMarketSentiment_body symb ohlcv now)
         \<and> score (getMarketSentiment_body symb ohlcv now) \<le> 100"
    using finalScore_range by (simp add: body_score)
  from a b c e finalScore_range [of sigs pats] body_score [of symb ohlcv now]
  show ?thesis by blast
qed

section \<open>Signal generator: funding rate\<close>

lemma block_indicators:
  "s_indicator (rsiSignal ind) = ''RSI (14)''"
  "s_indicator (macdSignal ind) = ''MACD''"
  "s_indicator (maAlignmentSignal ind) = ''MA Alignment''"
  "s_indicator (bollingerSignal ind) = ''Bollinger Bands''"
  by (simp_all add: rsiSignal_def macdSignal_def maAlignmentSignal_def bollingerSignal_def)

lemma volumeSignals_indicator:
  "filter (\<lambda>s. s_indicator s = ''Volume'') (volumeSignals ind) = volumeSignals ind"
  "filter (\<lambda>s. s_indicator s = ''MACD'') (volumeSignals ind) = []"
  "filter (\<lambda>s. s_indicator s = ''Funding Rate'') (volumeSignals ind) = []"
  by (simp_all add: volumeSignals_def)

lemma fundingSignals_indicator:
  "filter (\<lambda>s. s_indicator s = ''Funding Rate'') (fundingSignals ind) = fundingSignals ind"
  "filter (\<lambda>s. s_indicator s = ''MACD'') (fundingSignals ind) = []"
  by (simp_all add: fundingSignals_def)

lemma funding_entries:
  "filter (\<lambda>s. s_indicator s = ''Funding Rate'') (generateSignals ind) = fundingSignals ind"
  by (simp add: generateSignals_def block_indicators volumeSignals_indicator
        fundingSignals_indicator)

lemma macd_entries:
  "filter (\<lambda>s. s_indicator s = ''MACD'') (generateSignals ind) = [macdSignal ind]"
  by (simp add: generateSignals_def block_indicators volumeSignals_indicator
        fundingSignals_indicator)

lemma fundingSignals_kinds:
  "map s_signal (fundingSignals ind) =
     (if fundingRate ind < - 0.01 then [BUY]
      else if fundingRate ind > 0.05 then [SELL]
      else [])"
  by (simp add: fundingSignals_def)

text \<open>
  C7. The Funding Rate entry is BUY exactly when \<open>fundingRate < -0.01\<close>, SELL
  exactly when \<open>fundingRate > 0.05\<close>, and absent in between; at exactly -0.01 there
  is no entry and at -0.011 there is a BUY.
\<close>

theorem funding_signal_strict:
  "map s_signal (filter (\<lambda>s. s_indicator s = ''Funding Rate'') (generateSignals ind)) =
     (if fundingRate ind < - 0.01 then [BUY]
      else if fundingRate ind > 0.05 then [SELL]
      else [])
   \<and> map s_signal (filter (\<lambda>s. s_indicator s = ''Funding Rate'')
         (generateSignals (ind\<lparr>fundingRate := - 0.01\<rparr>))) = []
   \<and> map s_signal (filter (\<lambda>s. s_indicator s = ''Funding Rate'')
         (generateSignals (ind\<lparr>fundingRate := - 0.011\<rparr>))) = [BUY]"
  unfolding funding_entries fundingSignals_kinds by simp

section \<open>Relative strength index\<close>

lemma rnd_nn: "0 \<le> x \<Longrightarrow> nn (rnd x)"
proof -
  assume "0 \<le> x"
  from rnd_nonneg [OF this] show ?thesis
  proof
    assume "rnd x = PosInf" then show ?thesis by simp
  next
    assume "\<exists>z. rnd x = Fin z \<and> 0 \<le> z"
    then obtain z where z: "rnd x = Fin z" "0 \<le> z" by blast
    from rnd_fin_bound [OF z(1)] z show ?thesis by simp
  qed
qed

lemma rnd_nonpos: "x \<le> 0 \<Longrightarrow> nn (n_neg (rnd x))"
  using rnd_nn [of "- x"] by (simp add: rnd_neg)

lemma d_add_nn: "nn a \<Longrightarrow> nn b \<Longrightarrow> nn (d_add a b)"
  by (cases a; cases b) (simp_all add: rnd_nn)

lemma nn_gt0_or_0: "nn c \<Longrightarrow> \<not> n_gt c (Fin 0) \<Longrightarrow> c = Fin 0"
  by (cases c) (simp_all add: n_gt_def)

lemma step_nn:
  assumes "nn (fst acc)" "nn (snd acc)"
  shows "nn (fst (rsi_step prices i acc)) \<and> nn (snd (rsi_step prices i acc))"
proof -
  let ?d = "prices ! i - prices ! (i - 1)"
  have c: "d_sub (Fin (prices ! i)) (Fin (prices ! (i - 1))) = rnd ?d"
    by (simp add: d_sub_def)
  show ?thesis
  proof (cases "0 \<le> ?d")
    case True
    then have "nn (rnd ?d)" by (rule rnd_nn)
    moreover from this have "\<not> n_gt (rnd ?d) (Fin 0) \<Longrightarrow> rnd ?d = Fin 0"
      by (rule nn_gt0_or_0)
    ultimately show ?thesis using assms
      by (auto simp: rsi_step_def Let_def c d_add_nn d_sub_def)
  next
    case False
    then have n: "nn (n_neg (rnd ?d))" by (intro rnd_nonpos) simp
    then have "\<not> n_gt (rnd ?d) (Fin 0)" by (cases "rnd ?d") (simp_all add: n_gt_def)
    with n assms show ?thesis
      by (simp add: rsi_step_def Let_def c d_add_nn d_sub_def)
  qed
qed

lemma fold_nn:
  "nn (fst acc) \<Longrightarrow> nn (snd acc) \<Longrightarrow>
     nn (fst (fold (rsi_step prices) ixs acc)) \<and> nn (snd (fold (rsi_step prices) ixs acc))"
proof (induction ixs arbitrary: acc)
  case Nil
  then show ?case by simp
next
  case (Cons i ixs)
  from step_nn [OF Cons.prems, of prices i] Cons.IH [of "rsi_step prices i acc"]
  show ?case by simp
qed

lemma rsi_sums_nn: "nn (fst (rsi_sums prices p)) \<and> nn (snd (rsi_sums prices p))"
  unfolding rsi_sums_def by (rule fold_nn) simp_all

lemma d_sub_zero: "d_sub (Fin 0) (Fin 0) = Fin 0"
  by (simp add: d_sub_def)

lemma step_no_loss:
  assumes "n_ge (d_sub (Fin (prices ! i)) (Fin (prices ! (i - 1)))) (Fin 0)" "snd acc = Fin 0"
  shows "snd (rsi_step prices i acc) = Fin 0"
proof (cases "n_gt (d_sub (Fin (prices ! i)) (Fin (prices ! (i - 1)))) (Fin 0)")
  case True
  with assms(2) show ?thesis by (simp add: rsi_step_def Let_def)
next
  case False
  with assms(1) have "d_sub (Fin (prices ! i)) (Fin (prices ! (i - 1))) = Fin 0"
    by (cases "d_sub (Fin (prices ! i)) (Fin (prices ! (i - 1)))")
       (simp_all add: n_gt_def n_ge_def)
  with assms(2) show ?thesis by (simp add: rsi_step_def Let_def d_sub_zero n_gt_def)
qed

lemma fold_no_loss:
  "list_all (\<lambda>i. n_ge (d_sub (Fin (prices ! i)) (Fin (prices ! (i - 1)))) (Fin 0)) ixs \<Longrightarrow>
   snd acc = Fin 0 \<Longrightarrow>
     snd (fold (rsi_step prices) ixs acc) = Fin 0"
proof (induction ixs arbitrary: acc)
  case Nil
  then show ?case by simp
next
  case (Cons i ixs)
  from Cons.prems have "snd (rsi_step prices i acc) = Fin 0"
    by (intro step_no_loss) simp_all
  with Cons show ?case by simp
qed

lemma rsi_nonneg_deltas:
  assumes "15 \<le> length prices" "list_all (\<lambda>d. n_ge d (Fin 0)) (sampledDeltas prices 14)"
  shows "calculateRSI prices 14 = Fin 100"
proof -
  from assms(2) have "list_all (\<lambda>i. n_ge (d_sub (Fin (prices ! i)) (Fin (prices ! (i - 1)))) (Fin 0))
                        [length prices - 14 ..< length prices]"
    by (simp add: sampledDeltas_def list_all_iff)
  then have "snd (rsi_sums prices 14) = Fin 0"
    unfolding rsi_sums_def by (rule fold_no_loss) simp
  with assms(1) show ?thesis by (simp add: calculateRSI_def Let_def)
qed

lemma rnd_one_plus:
  assumes "0 \<le> r"
  shows "rnd (1 + r) = PosInf \<or> (\<exists>y. rnd (1 + r) = Fin y \<and> 1 \<le> y)"
proof -
  have "of_int 1 * pow2 0 \<le> 1 + r" using assms by simp
  from rnd_ge_double [OF this] show ?thesis by simp
qed

lemma rnd_le_100:
  assumes "0 \<le> x" "x \<le> 100"
  shows "\<exists>z. rnd x = Fin z \<and> 0 \<le> z \<and> z \<le> 100"
proof (cases "x = 0")
  case True
  then show ?thesis by simp
next
  case False
  with assms have p: "0 < x" by simp
  have c: "of_int 25 * pow2 2 = 100" by (simp add: pow2_def)
  with assms have "x \<le> of_int 25 * pow2 2" by simp
  from rnd_le_double [OF p this] c show ?thesis by simp
qed

lemma rsi_tail:
  assumes "nn rs"
  shows "in_range (d_sub (Fin 100) (d_div (Fin 100) (d_add (Fin 1) rs)))"
proof -
  have fin: "in_range (d_sub (Fin 100) (d_div (Fin 100) (Fin y)))" if y: "1 \<le> y" for y
  proof -
    from y have "0 \<le> 100 / y" "100 / y \<le> 100" by (simp_all add: divide_le_eq)
    from rnd_le_100 [OF this] obtain z where
      z: "rnd (100 / y) = Fin z" "0 \<le> z" "z \<le> 100" by blast
    then have "0 \<le> 100 - z" "100 - z \<le> 100" by simp_all
    from rnd_le_100 [OF this] obtain w where
      w: "rnd (100 - z) = Fin w" "0 \<le> w" "w \<le> 100" by blast
    from y z w show ?thesis by (simp add: d_sub_def)
  qed
  have inf: "in_range (d_sub (Fin 100) (d_div (Fin 100) PosInf))"
    using rnd_exact [of 100 25 2] by (simp add: d_sub_def pow2_def)
  from assms show ?thesis
  proof (cases rs)
    case (Fin r)
    with assms have "0 \<le> r" by simp
    from rnd_one_plus [OF this] fin inf Fin show ?thesis by auto
  next
    case PosInf
    with inf show ?thesis by simp
  qed simp_all
qed

lemma div_period_nn:
  assumes "nn a"
  shows "nn (d_div a (Fin 14))"
    and "(d_div a (Fin 14) = PosInf) = (a = PosInf)"
proof -
  have fin: "\<exists>w. rnd (z / 14) = Fin w \<and> 0 \<le> w \<and> w < pow2 1024"
    if z: "0 \<le> z" "z < pow2 1024" for z
  proof (cases "z = 0")
    case True
    then show ?thesis by simp
  next
    case False
    with z have p: "0 < z / 14" by simp
    have c: "of_int (2 ^ 52) * pow2 971 = pow2 1023" using pow2_add [of 52 971] by (simp add: pow2_def)
    have "pow2 1024 = 2 * pow2 1023" using pow2_add [of 1 1023] by (simp add: pow2_def)
    with z have "z / 14 \<le> pow2 1023" by simp
    with c have "z / 14 \<le> of_int (2 ^ 52) * pow2 971" by simp
    from rnd_le_double [OF p this] obtain w where
      w: "rnd (z / 14) = Fin w" "0 \<le> w" "w \<le> of_int (2 ^ 52) * pow2 971" by auto
    have "pow2 1023 < pow2 1024" by (intro pow2_strict_mono) simp
    with w c show ?thesis by simp
  qed
  show "nn (d_div a (Fin 14))"
  proof (cases a)
    case (Fin z)
    with assms fin [of z] obtain w where "rnd (z / 14) = Fin w" "0 \<le> w" "w < pow2 1024"
      by auto
    with Fin show ?thesis by simp
  qed (use assms in simp_all)
  show "(d_div a (Fin 14) = PosInf) = (a = PosInf)"
  proof (cases a)
    case (Fin z)
    with assms fin [of z] obtain w where "rnd (z / 14) = Fin w" by auto
    with Fin show ?thesis by simp
  qed (use assms in simp_all)
qed

lemma rsi_value_cases:
  assumes "15 \<le> length prices"
  shows "(calculateRSI prices 14 = NaN \<and> rsi_sums prices 14 = (PosInf, PosInf))
       \<or> (in_range (calculateRSI prices 14) \<and> rsi_sums prices 14 \<noteq> (PosInf, PosInf))"
proof -
  let ?G = "fst (rsi_sums prices 14)"
  let ?L = "snd (rsi_sums prices 14)"
  let ?aG = "d_div ?G (Fin 14)"
  let ?aL = "d_div ?L (Fin 14)"
  from rsi_sums_nn [of prices 14] have g: "nn ?G" and l: "nn ?L" by simp_all
  note ag = div_period_nn [OF g] and al = div_period_nn [OF l]
  have v: "calculateRSI prices 14 =
             (if ?aL = Fin 0 then Fin 100
              else d_sub (Fin 100) (d_div (Fin 100) (d_add (Fin 1) (d_div ?aG ?aL))))"
    using assms by (simp add: calculateRSI_def Let_def)
  have sums: "(rsi_sums prices 14 = (PosInf, PosInf)) = (?G = PosInf \<and> ?L = PosInf)"
    by (cases "rsi_sums prices 14") simp
  show ?thesis
  proof (cases "?aL = Fin 0")
    case True
    with al(2) have "?L \<noteq> PosInf" by auto
    with True v sums show ?thesis by simp
  next
    case False
    show ?thesis
    proof (cases "?aG = PosInf \<and> ?aL = PosInf")
      case True
      with v False ag(2) al(2) sums show ?thesis by (simp add: d_sub_def)
    next
      case nb: False
      have "nn (d_div ?aG ?aL)"
      proof (cases ?aL)
        case (Fin b)
        with al(1) False have b: "0 < b" by simp
        show ?thesis
        proof (cases ?aG)
          case (Fin a)
          with ag(1) have "0 \<le> a" using Fin by simp
          with b have "0 \<le> a / b" by simp
          then have "nn (rnd (a / b))" by (rule rnd_nn)
          with Fin \<open>?aL = Fin b\<close> b show ?thesis by simp
        next
          case PosInf
          with \<open>?aL = Fin b\<close> b show ?thesis by simp
        next
          case NegInf
          with ag(1) show ?thesis by simp
        next
          case NaN
          with ag(1) show ?thesis by simp
        qed
      next
        case PosInf
        with nb ag(1) show ?thesis by (cases ?aG) (simp_all add: pow2_def)
      next
        case NegInf
        with al(1) show ?thesis by simp
      next
        case NaN
        with al(1) show ?thesis by simp
      qed
      then have "in_range (d_sub (Fin 100) (d_div (Fin 100) (d_add (Fin 1) (d_div ?aG ?aL))))"
        by (rule rsi_tail)
      moreover from nb ag(2) al(2) sums have "rsi_sums prices 14 \<noteq> (PosInf, PosInf)" by simp
      ultimately show ?thesis using v False by simp
    qed
  qed
qed

text \<open>
  C3 (as the code has it, in double arithmetic). With fewer than 15 prices
  \<open>calculateRSI\<close> with period 14 is 50. With at least 15 prices it is NaN when the
  summed gains and the summed losses of the window have both overflowed to
  \<open>Infinity\<close>, and a number of [0, 100] otherwise; and it is 100 whenever all 14
  sampled deltas are non-negative, a flat window included.
\<close>

theorem rsi_range_and_ceiling:
  "(length prices < 15 \<longrightarrow> calculateRSI prices 14 = Fin 50)
   \<and> (15 \<le> length prices \<longrightarrow>
        (case calculateRSI prices 14 of
           Fin r \<Rightarrow> 0 \<le> r \<and> r \<le> 100 \<and> rsi_sums prices 14 \<noteq> (PosInf, PosInf)
         | NaN \<Rightarrow> rsi_sums prices 14 = (PosInf, PosInf)
         | _ \<Rightarrow> False)
      \<and> (list_all (\<lambda>d. n_ge d (Fin 0)) (sampledDeltas prices 14)
           \<longrightarrow> calculateRSI prices 14 = Fin 100))"
proof (intro conjI impI)
  assume "length prices < 15"
  then show "calculateRSI prices 14 = Fin 50" by (simp add: calculateRSI_def)
next
  assume "15 \<le> length prices"
  from rsi_value_cases [OF this]
  show "case calculateRSI prices 14 of
           Fin r \<Rightarrow> 0 \<le> r \<and> r \<le> 100 \<and> rsi_sums prices 14 \<noteq> (PosInf, PosInf)
         | NaN \<Rightarrow> rsi_sums prices 14 = (PosInf, PosInf)
         | _ \<Rightarrow> False"
    by (cases "calculateRSI prices 14") auto
next
  assume "15 \<le> length prices"
    and "list_all (\<lambda>d. n_ge d (Fin 0)) (sampledDeltas prices 14)"
  then show "calculateRSI prices 14 = Fin 100" by (rule rsi_nonneg_deltas)
qed

lemma upt_1_15: "[(1::nat)..<15] = [1, 2, 3, 4, 5, 6, 7, 8, 9, 10, 11, 12, 13, 14]"
  by code_simp

lemma rsi_spike_general:
  assumes "rnd (- 1) = Fin (- 1)" "rnd 1 = Fin 1" "rnd (P - 1) = Fin P" "rnd P = Fin P" "0 < P"
    "rnd (P / 14) = Fin G" "rnd (1 / 14) = Fin L" "L \<noteq> 0" "rnd (G / L) = Fin R"
    "rnd (1 + R) = Fin Y" "Y \<noteq> 0" "rnd (100 / Y) = Fin T" "rnd (100 - T) = Fin W"
  shows "calculateRSI [2, 1, P, P, P, P, P, P, P, P, P, P, P, P, P] 14 = Fin W"
proof -
  have "rsi_sums [2, 1, P, P, P, P, P, P, P, P, P, P, P, P, P] 14 = (Fin P, Fin 1)"
    using assms(1-5)
    by (simp add: rsi_sums_def upt_1_15 rsi_step_def Let_def d_sub_def n_gt_def)
  with assms(6-13) show ?thesis
    by (simp add: calculateRSI_def Let_def d_sub_def)
qed

lemma rsi_overflow_general:
  assumes "rnd M = Fin M" "rnd (M + M) = PosInf" "rnd (2 * M) = PosInf" "0 < M"
  shows "rsi_sums [0, 0, 0, 0, 0, 0, 0, 0, 0, 0, 0, M, 0, M, 0] 14 = (PosInf, PosInf)"
  using assms
  by (simp add: rsi_sums_def upt_1_15 rsi_step_def Let_def d_sub_def n_gt_def rnd_neg)

lemma upt_shift: "map (\<lambda>i. i + n) [a ..< b] = [a + n ..< b + n]"
  by (rule nth_equalityI) (simp_all add: add.commute add.left_commute)

lemma rsi_sums_window:
  assumes "15 \<le> length w"
  shows "rsi_sums (pre @ w) 14 = rsi_sums w 14"
proof -
  let ?n = "length pre"
  have idx: "[length (pre @ w) - 14 ..< length (pre @ w)]
               = map (\<lambda>i. i + ?n) [length w - 14 ..< length w]"
    using assms by (simp add: upt_shift add.commute)
  have step: "rsi_step (pre @ w) (i + ?n) = rsi_step w i" if "1 \<le> i" for i
  proof -
    from that have "i + ?n - 1 = (i - 1) + ?n" by simp
    then have "(pre @ w) ! (i + ?n - 1) = w ! (i - 1)" by (simp add: nth_append)
    moreover have "(pre @ w) ! (i + ?n) = w ! i" by (simp add: nth_append)
    ultimately show ?thesis by (simp add: rsi_step_def fun_eq_iff)
  qed
  have "fold (rsi_step (pre @ w)) (map (\<lambda>i. i + ?n) ixs) acc = fold (rsi_step w) ixs acc"
    if "list_all (\<lambda>i. 1 \<le> i) ixs" for ixs acc
    using that by (induction ixs arbitrary: acc) (simp_all add: step)
  moreover have "list_all (\<lambda>i. 1 \<le> i) [length w - 14 ..< length w]"
    using assms by (auto simp: list_all_iff)
  ultimately show ?thesis unfolding rsi_sums_def idx by simp
qed

lemma calculateRSI_window:
  assumes "15 \<le> length w"
  shows "calculateRSI (pre @ w) 14 = calculateRSI w 14"
  using assms by (simp add: calculateRSI_def rsi_sums_window)

lemma rsi_entries:
  "filter (\<lambda>s. s_indicator s = ''RSI (14)'') (generateSignals ind) = [rsiSignal ind]"
  by (simp add: generateSignals_def block_indicators volumeSignals_def fundingSignals_def)

lemma rsiSignal_value: "s_value (rsiSignal ind) = rsi14 ind"
  by (simp add: rsiSignal_def)

lemma body_rsi_entry:
  assumes "50 \<le> length ohlcv"
  shows "map s_value (filter (\<lambda>s. s_indicator s = ''RSI (14)'')
           (signals (getMarketSentiment_body symb ohlcv now)))
         = [calculateRSI (map c_close ohlcv) 14]"
  using assms
  by (simp add: getMarketSentiment_body_def Let_def rsi_entries rsiSignal_value)

lemma r_m1: "rnd (- 1) = Fin (- 1)"
  using rnd_exact [of "- 1" "- 1" 0] by simp

lemma r_1: "rnd 1 = Fin 1"
  using rnd_exact [of 1 1 0] by simp

lemma r_P1: "rnd (10 ^ 17 - 1) = Fin (10 ^ 17)"
  using rnd_cert [of "10 ^ 17 - 1" 4 6250000000000000]
  by (simp add: pow2_def round_half_even_def)

lemma r_P: "rnd (10 ^ 17) = Fin (10 ^ 17)"
  using rnd_exact [of "10 ^ 17" 6250000000000000 4] by (simp add: pow2_def)

lemma r_G: "rnd (10 ^ 17 / 14) = Fin 7142857142857143"
  using rnd_cert [of "10 ^ 17 / 14" 0 7142857142857143]
  by (simp add: pow2_def round_half_even_def)

lemma r_L: "rnd (1 / 14) = Fin (2573485501354569 / 36028797018963968)"
  using rnd_cert [of "1 / 14" "- 56" 5146971002709138]
  by (simp add: pow2_def round_half_even_def)

lemma r_R: "rnd (7142857142857143 / (2573485501354569 / 36028797018963968)) = Fin (10 ^ 17)"
  using rnd_cert [of "7142857142857143 / (2573485501354569 / 36028797018963968)" 4
      6250000000000000]
  by (simp add: pow2_def round_half_even_def)

lemma r_Y: "rnd (1 + 10 ^ 17) = Fin (10 ^ 17)"
  using rnd_cert [of "1 + 10 ^ 17" 4 6250000000000000]
  by (simp add: pow2_def round_half_even_def)

lemma r_T: "rnd (100 / 10 ^ 17) = Fin (2535301200456459 / 2535301200456458802993406410752)"
  using rnd_cert [of "100 / 10 ^ 17" "- 102" 5070602400912918]
  by (simp add: pow2_def round_half_even_def)

lemma r_W: "rnd (100 - 2535301200456459 / 2535301200456458802993406410752) = Fin 100"
  using rnd_cert [of "100 - 2535301200456459 / 2535301200456458802993406410752" "- 46"
      7036874417766400]
  by (simp add: pow2_def round_half_even_def)

lemma r_M: "rnd (2 ^ 1023) = Fin (2 ^ 1023)"
  using rnd_exact [of "2 ^ 1023" "2 ^ 52" 971] by (simp add: pow2_def)

lemma r_2M: "rnd (2 ^ 1023 + 2 ^ 1023) = PosInf" "rnd (2 * 2 ^ 1023) = PosInf"
  using rnd_overflow [of "2 ^ 1023 + 2 ^ 1023"] rnd_overflow [of "2 * 2 ^ 1023"]
  by (simp_all add: pow2_def)

theorem rsi_range_and_ceiling_witness:
  "length [1, 2 :: real] < 15
   \<and> calculateRSI [1, 2] 14 = Fin 50
   \<and> 15 \<le> length [1, 2, 3, 4, 5, 6, 7, 8, 9, 10, 11, 12, 13, 14, 15 :: real]
   \<and> list_all (\<lambda>d. n_ge d (Fin 0))
        (sampledDeltas [1, 2, 3, 4, 5, 6, 7, 8, 9, 10, 11, 12, 13, 14, 15] 14)
   \<and> calculateRSI [1, 2, 3, 4, 5, 6, 7, 8, 9, 10, 11, 12, 13, 14, 15] 14 = Fin 100"
proof -
  have a: "length [1, 2 :: real] < 15" by simp
  have b: "15 \<le> length [1, 2, 3, 4, 5, 6, 7, 8, 9, 10, 11, 12, 13, 14, 15 :: real]" by simp
  have c: "list_all (\<lambda>d. n_ge d (Fin 0))
        (sampledDeltas [1, 2, 3, 4, 5, 6, 7, 8, 9, 10, 11, 12, 13, 14, 15] 14)"
    by (simp add: sampledDeltas_def upt_1_15 d_sub_def r_1 n_ge_def)
  from rsi_range_and_ceiling [of "[1, 2]"]
       rsi_range_and_ceiling [of "[1, 2, 3, 4, 5, 6, 7, 8, 9, 10, 11, 12, 13, 14, 15]"] a b c
  show ?thesis by blast
qed

text \<open>
  The claim as stated fails three ways. Fifteen equal prices give RSI 100 although no
  sampled delta is strictly positive. The prices 2, 1 and thirteen times \<open>10^17\<close>
  give RSI exactly 100 although the first sampled delta is -1: the quotient
  \<open>100 / (1 + rs)\<close> is below half a unit in the last place of 100. And a window
  that rises twice by \<open>2^1023\<close> and falls twice by \<open>2^1023\<close> overflows both
  sums, so that RSI is NaN, which is no number of [0, 100]; the last conjunct is the
  RSI entry of an evaluation of 50 candles that end with this window.
\<close>

theorem rsi_counterexamples:
  "calculateRSI [100, 100, 100, 100, 100, 100, 100, 100, 100, 100, 100, 100, 100, 100,
        100] 14 = Fin 100
   \<and> \<not> list_ex (\<lambda>d. n_gt d (Fin 0))
         (sampledDeltas [100, 100, 100, 100, 100, 100, 100, 100, 100, 100, 100, 100, 100,
            100, 100] 14)
   \<and> calculateRSI [2, 1, 10 ^ 17, 10 ^ 17, 10 ^ 17, 10 ^ 17, 10 ^ 17, 10 ^ 17, 10 ^ 17,
        10 ^ 17, 10 ^ 17, 10 ^ 17, 10 ^ 17, 10 ^ 17, 10 ^ 17] 14 = Fin 100
   \<and> \<not> list_all (\<lambda>d. n_ge d (Fin 0)) (sampledDeltas [2, 1, 10 ^ 17, 10 ^ 17, 10 ^ 17,
        10 ^ 17, 10 ^ 17, 10 ^ 17, 10 ^ 17, 10 ^ 17, 10 ^ 17, 10 ^ 17, 10 ^ 17, 10 ^ 17,
        10 ^ 17] 14)
   \<and> calculateRSI [0, 0, 0, 0, 0, 0, 0, 0, 0, 0, 0, 2 ^ 1023, 0, 2 ^ 1023, 0] 14 = NaN
   \<and> map s_value (filter (\<lambda>s. s_indicator s = ''RSI (14)'')
        (signals (getMarketSentiment_body ''BTC''
           (replicate 46 \<lparr>c_time = 0, c_open = 0, c_high = 0, c_low = 0, c_close = 0,
                           c_volume = 1\<rparr>
            @ [\<lparr>c_time = 0, c_open = 0, c_high = 2 ^ 1023, c_low = 0, c_close = 2 ^ 1023,
                 c_volume = 1\<rparr>,
               \<lparr>c_time = 0, c_open = 2 ^ 1023, c_high = 2 ^ 1023, c_low = 0, c_close = 0,
                 c_volume = 1\<rparr>,
               \<lparr>c_time = 0, c_open = 0, c_high = 2 ^ 1023, c_low = 0, c_close = 2 ^ 1023,
                 c_volume = 1\<rparr>,
               \<lparr>c_time = 0, c_open = 2 ^ 1023, c_high = 2 ^ 1023, c_low = 0, c_close = 0,
                 c_volume = 1\<rparr>])
           1700000000000)))
       = [NaN]"
proof -
  have flat: "list_all (\<lambda>d. n_ge d (Fin 0))
         (sampledDeltas [100, 100, 100, 100, 100, 100, 100, 100, 100, 100, 100, 100, 100,
            100, 100] 14)"
    by (simp add: sampledDeltas_def upt_1_15 d_sub_def n_ge_def)
  have a: "calculateRSI [100, 100, 100, 100, 100, 100, 100, 100, 100, 100, 100, 100, 100, 100,
        100] 14 = Fin 100"
    using flat by (intro rsi_nonneg_deltas) simp_all
  have b: "\<not> list_ex (\<lambda>d. n_gt d (Fin 0))
         (sampledDeltas [100, 100, 100, 100, 100, 100, 100, 100, 100, 100, 100, 100, 100,
            100, 100] 14)"
    by (simp add: sampledDeltas_def upt_1_15 d_sub_def n_gt_def)
  have "(10::real) ^ 17 > 0" by simp
  moreover have "(2573485501354569 / 36028797018963968 :: real) \<noteq> 0" by simp
  moreover have "(10::real) ^ 17 \<noteq> 0" by simp
  ultimately have c: "calculateRSI [2, 1, 10 ^ 17, 10 ^ 17, 10 ^ 17, 10 ^ 17, 10 ^ 17,
        10 ^ 17, 10 ^ 17, 10 ^ 17, 10 ^ 17, 10 ^ 17, 10 ^ 17, 10 ^ 17, 10 ^ 17] 14 = Fin 100"
    by (intro rsi_spike_general [OF r_m1 r_1 r_P1 r_P _ r_G r_L _ r_R r_Y _ r_T r_W])
  have d: "\<not> list_all (\<lambda>d. n_ge d (Fin 0)) (sampledDeltas [2, 1, 10 ^ 17, 10 ^ 17, 10 ^ 17,
        10 ^ 17, 10 ^ 17, 10 ^ 17, 10 ^ 17, 10 ^ 17, 10 ^ 17, 10 ^ 17, 10 ^ 17, 10 ^ 17,
        10 ^ 17] 14)"
    by (simp add: sampledDeltas_def upt_1_15 d_sub_def r_m1 n_ge_def)
  let ?w = "[0, 0, 0, 0, 0, 0, 0, 0, 0, 0, 0, 2 ^ 1023, 0, 2 ^ 1023, 0 :: real]"
  let ?c0 = "\<lparr>c_time = 0, c_open = 0, c_high = 0, c_low = 0, c_close = 0, c_volume = 1\<rparr>"
  let ?tail = "[\<lparr>c_time = 0, c_open = 0, c_high = 2 ^ 1023, c_low = 0, c_close = 2 ^ 1023,
                 c_volume = 1\<rparr>,
               \<lparr>c_time = 0, c_open = 2 ^ 1023, c_high = 2 ^ 1023, c_low = 0, c_close = 0,
                 c_volume = 1\<rparr>,
               \<lparr>c_time = 0, c_open = 0, c_high = 2 ^ 1023, c_low = 0, c_close = 2 ^ 1023,
                 c_volume = 1\<rparr>,
               \<lparr>c_time = 0, c_open = 2 ^ 1023, c_high = 2 ^ 1023, c_low = 0, c_close = 0,
                 c_volume = 1\<rparr>]"
  have "(2::real) ^ 1023 > 0" by simp
  from rsi_overflow_general [OF r_M r_2M this]
  have s: "rsi_sums ?w 14 = (PosInf, PosInf)" .
  have len: "15 \<le> length ?w" by simp
  from rsi_value_cases [OF len] s
  have e: "calculateRSI ?w 14 = NaN" by simp
  have r11: "replicate 11 (0::real) = [0, 0, 0, 0, 0, 0, 0, 0, 0, 0, 0]"
    by (simp add: numeral_eq_Suc)
  have r46: "replicate 46 (0::real) = replicate 35 0 @ [0, 0, 0, 0, 0, 0, 0, 0, 0, 0, 0]"
    using replicate_add [of 35 11 "0::real"] by (simp add: r11)
  have closes: "map c_close (replicate 46 ?c0 @ ?tail) = replicate 35 0 @ ?w"
    by (simp add: r46)
  have l50: "50 \<le> length (replicate 46 ?c0 @ ?tail)" by simp
  have f: "map s_value (filter (\<lambda>s. s_indicator s = ''RSI (14)'')
        (signals (getMarketSentiment_body ''BTC''
           (replicate 46 ?c0 @ ?tail) 1700000000000))) = [NaN]"
    unfolding body_rsi_entry [OF l50] closes calculateRSI_window [OF len] e by (rule refl)
  from a b c d e f show ?thesis by (intro conjI)
qed

section \<open>Signal generator: MACD\<close>

lemma rnd_08: "rnd 0.8 = Fin (3602879701896397 / 4503599627370496)"
  using rnd_cert [of "0.8" "- 53" 7205759403792794]
  by (simp add: pow2_def round_half_even_def)

lemma rnd_08_normal: "rnd (4 / 5) = Fin (3602879701896397 / 4503599627370496)"
  using rnd_08 by simp

lemma macd_buy:
  assumes d: "rnd x = Fin x" and big: "3 * pow2 (- 1074) \<le> x"
  shows "\<exists>V h. d_mul (Fin x) (rnd 0.8) = Fin V \<and> V < x
           \<and> d_sub (Fin x) (Fin V) = h \<and> n_gt h (Fin 0)"
proof -
  let ?c = "3602879701896397 / 4503599627370496 :: real"
  let ?u = "pow2 (- 1074)"
  let ?y = "x * ?c"
  have up: "0 < ?u" by simp
  with big have xp: "0 < x" by linarith
  then have yp: "0 < ?y" by simp
  from rnd_pos_err [OF yp] obtain V where
    err: "\<bar>V - ?y\<bar> \<le> pow2 (ulp_exp ?y) / 2" and
    r: "rnd ?y = (if pow2 1024 \<le> V then PosInf else Fin V)" by blast
  have "pow2 (- 52) = 1 / 4503599627370496" by (simp add: pow2_def)
  with ulp_bound [OF yp] have ub: "pow2 (ulp_exp ?y) \<le> max ?u (?y / 4503599627370496)" by simp
  have Vx: "V < x"
  proof (cases "?u \<le> ?y / 4503599627370496")
    case True
    with ub have "pow2 (ulp_exp ?y) \<le> ?y / 4503599627370496" by simp
    with err have "V \<le> ?y + ?y / 4503599627370496 / 2" by linarith
    also have "\<dots> < x" using xp by simp
    finally show ?thesis .
  next
    case False
    with ub have "pow2 (ulp_exp ?y) \<le> ?u" by simp
    with err have "V \<le> ?y + ?u / 2" by linarith
    also have "\<dots> < x" using big up by linarith
    finally show ?thesis .
  qed
  from rnd_fin_bound [OF d] xp have "x < pow2 1024" by simp
  with Vx r have s: "rnd ?y = Fin V" by simp
  from rnd_grid [OF d] obtain nx :: int where nx: "x = of_int nx * ?u" by blast
  from rnd_grid [OF s] obtain nv :: int where nv: "V = of_int nv * ?u" by blast
  from Vx nx nv have "of_int nv * ?u < of_int nx * ?u" by simp
  then have "(of_int nv :: real) < of_int nx" using up by (simp only: mult_less_cancel_right_pos)
  then have "nv < nx" by simp
  then have "1 \<le> nx - nv" by simp
  then have "(of_int 1 :: real) \<le> of_int (nx - nv)" by (simp only: of_int_le_iff)
  then have "of_int 1 * ?u \<le> of_int (nx - nv) * ?u" by (intro mult_right_mono) simp_all
  also have "of_int (nx - nv) * ?u = x - V" using nx nv by (simp add: algebra_simps)
  finally have "of_int 1 * ?u \<le> x - V" .
  have "0 < z" if "?u \<le> z" for z using that up by linarith
  with rnd_ge_double [OF \<open>of_int 1 * ?u \<le> x - V\<close>] have "n_gt (rnd (x - V)) (Fin 0)"
    by (auto simp: n_gt_def)
  with s Vx show ?thesis by (simp add: rnd_08_normal d_sub_def)
qed

lemma macd_sell:
  assumes d: "rnd x = Fin x" and big: "x \<le> - 3 * pow2 (- 1074)"
  shows "\<exists>V h. d_mul (Fin x) (rnd 0.8) = Fin V \<and> x < V
           \<and> d_sub (Fin x) (Fin V) = h \<and> n_lt h (Fin 0)"
proof -
  let ?c = "3602879701896397 / 4503599627370496 :: real"
  from d rnd_neg [of x] have d': "rnd (- x) = Fin (- x)" by simp
  from big have big': "3 * pow2 (- 1074) \<le> - x" by simp
  from macd_buy [OF d' big'] obtain V where
    V: "d_mul (Fin (- x)) (rnd 0.8) = Fin V" "V < - x" "n_gt (d_sub (Fin (- x)) (Fin V)) (Fin 0)"
    by blast
  from V(1) have "rnd (- x * ?c) = Fin V" by (simp add: rnd_08_normal)
  moreover have "- x * ?c = - (x * ?c)" by simp
  ultimately have "rnd (- (x * ?c)) = Fin V" by (simp only:)
  then have m: "rnd (x * ?c) = Fin (- V)"
    using rnd_neg [of "x * ?c"] by (cases "rnd (x * ?c)") simp_all
  have "- x + - V = - (x + V)" by simp
  with V(3) have "n_gt (rnd (- (x + V))) (Fin 0)" by (simp add: d_sub_def)
  then have "n_lt (rnd (x + V)) (Fin 0)"
    using rnd_neg [of "x + V"] by (cases "rnd (x + V)") (simp_all add: n_gt_def)
  moreover have "d_mul (Fin x) (rnd 0.8) = Fin (- V)" using m by (simp add: rnd_08_normal)
  moreover have "d_sub (Fin x) (Fin (- V)) = rnd (x + V)" by (simp add: d_sub_def)
  ultimately show ?thesis using V(2) by auto
qed

lemma macd_small:
  assumes d: "rnd x = Fin x" and small: "\<bar>x\<bar> < 3 * pow2 (- 1074)"
  shows "d_mul (Fin x) (rnd 0.8) = Fin x"
proof -
  let ?u = "pow2 (- 1074)"
  let ?c = "3602879701896397 / 4503599627370496 :: real"
  have one: "rnd (?u * ?c) = Fin ?u"
    using rnd_cert [of "?u * ?c" "- 1074" 1] by (simp add: pow2_def round_half_even_def)
  have two: "rnd (2 * ?u * ?c) = Fin (2 * ?u)"
    using rnd_cert [of "2 * ?u * ?c" "- 1074" 2] by (simp add: pow2_def round_half_even_def)
  from rnd_grid [OF d] obtain n :: int where n: "x = of_int n * ?u" by blast
  with small have "\<bar>of_int n :: real\<bar> * ?u < 3 * ?u" by (simp add: abs_mult)
  then have "\<bar>of_int n :: real\<bar> < 3" by (simp only: mult_less_cancel_right_pos pow2_pos)
  then have "\<bar>n\<bar> < 3" by linarith
  then consider "n = 0" | "n = 1" | "n = 2" | "n = - 1" | "n = - 2" by linarith
  then have "rnd (x * ?c) = Fin x"
  proof cases
    case 1
    with n show ?thesis by simp
  next
    case 2
    with n one show ?thesis by simp
  next
    case 3
    with n two show ?thesis by simp
  next
    case 4
    with n have "x * ?c = - (?u * ?c)" by simp
    with one rnd_neg [of "?u * ?c"] 4 n show ?thesis by simp
  next
    case 5
    with n have "x * ?c = - (2 * ?u * ?c)" by simp
    with two rnd_neg [of "2 * ?u * ?c"] 5 n show ?thesis by simp
  qed
  then show ?thesis by (simp add: rnd_08_normal)
qed

lemma macdSignal_by_magnitude:
  assumes d: "is_double (m_macd r)"
    and s: "m_signal r = d_mul (m_macd r) (rnd 0.8)"
    and h: "m_histogram r = d_sub (m_macd r) (m_signal r)"
  shows "s_signal (macdSignal (ind\<lparr>macd := r\<rparr>)) =
           (case m_macd r of
              Fin x \<Rightarrow> if 3 * pow2 (- 1074) \<le> x then BUY
                       else if x \<le> - 3 * pow2 (- 1074) then SELL
                       else NEUTRAL
            | _ \<Rightarrow> NEUTRAL)"
proof (cases "m_macd r")
  case (Fin x)
  with d have dx: "rnd x = Fin x" by simp
  show ?thesis
  proof (cases "3 * pow2 (- 1074) \<le> x")
    case True
    from macd_buy [OF dx True] obtain V where
      V: "d_mul (Fin x) (rnd 0.8) = Fin V" "V < x" "n_gt (d_sub (Fin x) (Fin V)) (Fin 0)"
      by blast
    from s V(1) Fin have sg: "m_signal r = Fin V" by simp
    from h sg V(3) Fin have hg: "n_gt (m_histogram r) (Fin 0)" by simp
    from sg hg V(2) Fin True show ?thesis by (simp add: macdSignal_def n_gt_def)
  next
    case nb: False
    show ?thesis
    proof (cases "x \<le> - 3 * pow2 (- 1074)")
      case True
      from macd_sell [OF dx True] obtain V where
        V: "d_mul (Fin x) (rnd 0.8) = Fin V" "x < V" "n_lt (d_sub (Fin x) (Fin V)) (Fin 0)"
        by blast
      from s V(1) Fin have sg: "m_signal r = Fin V" by simp
      from h sg V(3) Fin have hl: "n_lt (m_histogram r) (Fin 0)" by simp
      then have hg: "\<not> n_gt (m_histogram r) (Fin 0)"
        by (cases "m_histogram r") (simp_all add: n_gt_def)
      from hl hg Fin True nb show ?thesis by (simp add: macdSignal_def)
    next
      case False
      with nb have "\<bar>x\<bar> < 3 * pow2 (- 1074)" by simp
      from macd_small [OF dx this] s Fin have sg: "m_signal r = Fin x" by simp
      with h Fin have hz: "m_histogram r = Fin 0" by (simp add: d_sub_def)
      from hz Fin nb False show ?thesis by (simp add: macdSignal_def n_gt_def)
    qed
  qed
next
  case PosInf
  with s have "m_signal r = PosInf" by (simp add: rnd_08_normal)
  with h PosInf have "m_histogram r = NaN" by (simp add: d_sub_def)
  with PosInf show ?thesis by (simp add: macdSignal_def n_gt_def)
next
  case NegInf
  with s have "m_signal r = NegInf" by (simp add: rnd_08_normal)
  with h NegInf have "m_histogram r = NaN" by (simp add: d_sub_def)
  with NegInf show ?thesis by (simp add: macdSignal_def n_gt_def)
next
  case NaN
  with s have "m_signal r = NaN" by simp
  with h NaN have "m_histogram r = NaN" by (simp add: d_sub_def)
  with NaN show ?thesis by (simp add: macdSignal_def n_gt_def)
qed

lemma is_double_d_sub: "is_double (d_sub a b)"
  by (cases a; cases b) (simp_all add: d_sub_def is_double_rnd)

lemma calculateMACD_lines:
  "is_double (m_macd (calculateMACD prices))"
  "m_signal (calculateMACD prices) = d_mul (m_macd (calculateMACD prices)) (rnd 0.8)"
  "m_histogram (calculateMACD prices) =
     d_sub (m_macd (calculateMACD prices)) (m_signal (calculateMACD prices))"
  unfolding calculateMACD_def Let_def MACD.simps
  by (rule is_double_d_sub, rule refl, rule refl)

text \<open>
  C9 (as the code has it, in double arithmetic). The signal line is \<open>macd * 0.8\<close>
  rounded and the histogram is \<open>macd - signal\<close> rounded. The MACD entry of the
  generated signals is BUY exactly when \<open>macd\<close> is finite and at least
  \<open>3 * 2^-1074\<close>, SELL exactly when it is finite and at most \<open>-3 * 2^-1074\<close>,
  and NEUTRAL otherwise: when \<open>macd\<close> is 0, one of the four doubles nearest to 0,
  an infinity or NaN.
\<close>

theorem macd_signal_by_magnitude:
  "m_signal (calculateMACD prices) = d_mul (m_macd (calculateMACD prices)) (rnd 0.8)
   \<and> m_histogram (calculateMACD prices) =
        d_sub (m_macd (calculateMACD prices)) (m_signal (calculateMACD prices))
   \<and> map s_signal (filter (\<lambda>s. s_indicator s = ''MACD'')
         (generateSignals (ind\<lparr>macd := calculateMACD prices\<rparr>)))
       = [case m_macd (calculateMACD prices) of
            Fin x \<Rightarrow> if 3 * pow2 (- 1074) \<le> x then BUY
                     else if x \<le> - 3 * pow2 (- 1074) then SELL
                     else NEUTRAL
          | _ \<Rightarrow> NEUTRAL]"
proof -
  note l = calculateMACD_lines [of prices]
  from macdSignal_by_magnitude [OF l, of ind] l(2,3) show ?thesis
    by (simp add: macd_entries)
qed

lemma r_12: "rnd 12 = Fin 12"
  using rnd_exact [of 12 12 0] by simp

lemma r_02: "rnd (1 / 5) = Fin (3602879701896397 / 18014398509481984)"
  using rnd_cert [of "1 / 5" "- 55" 7205759403792794]
  by (simp add: pow2_def round_half_even_def)

lemma r_02d: "rnd (3602879701896397 / 18014398509481984) = Fin (3602879701896397 / 18014398509481984)"
  using r_02 by (rule rnd_idem)

lemma r_08d: "rnd (3602879701896397 / 4503599627370496) = Fin (3602879701896397 / 4503599627370496)"
  using rnd_08_normal by (rule rnd_idem)

lemma r_hist: "rnd (900719925474099 / 4503599627370496) = Fin (900719925474099 / 4503599627370496)"
  using rnd_exact [of "900719925474099 / 4503599627370496" 900719925474099 "- 52"]
  by (simp add: pow2_def)

lemma macd_unit:
  "calculateMACD [12, 0, 0, 0, 0, 0, 0, 0, 0, 0, 0, 0] =
     \<lparr>m_macd = Fin 1, m_signal = Fin (3602879701896397 / 4503599627370496),
      m_histogram = Fin (900719925474099 / 4503599627370496)\<rparr>"
proof -
  have sma: "calculateSMA_double [12, 0, 0, 0, 0, 0, 0, 0, 0, 0, 0, 0] 12 = Fin 1"
    by (simp add: calculateSMA_double_def slice_from_def rel_index_def r_12 r_1)
  have e12: "calculateEMA_double [12, 0, 0, 0, 0, 0, 0, 0, 0, 0, 0, 0] 12 = Fin 1"
    using sma by (simp add: calculateEMA_double_def Let_def slice_def rel_index_def)
  have e26: "calculateEMA_double [12, 0, 0, 0, 0, 0, 0, 0, 0, 0, 0, 0] 26 = Fin 0"
    by (simp add: calculateEMA_double_def at_index_def)
  show ?thesis
    unfolding calculateMACD_def Let_def e12 e26
    by (simp add: d_sub_def r_1 rnd_08_normal r_08d r_hist)
qed

lemma body_macd_entry:
  assumes "50 \<le> length ohlcv" and "calculateMACD (map c_close ohlcv) = r"
  shows "map s_signal (filter (\<lambda>s. s_indicator s = ''MACD'')
           (signals (getMarketSentiment_body symb ohlcv now)))
         = [if n_gt (m_histogram r) (Fin 0) \<and> n_gt (m_macd r) (m_signal r) then BUY
            else if n_lt (m_histogram r) (Fin 0) then SELL else NEUTRAL]"
    and "map s_value (filter (\<lambda>s. s_indicator s = ''MACD'')
           (signals (getMarketSentiment_body symb ohlcv now)))
         = [m_histogram r]"
  using assms
  by (simp_all add: getMarketSentiment_body_def Let_def macd_entries macdSignal_def)

lemma sum_zeros: "foldl (\<lambda>sum p. d_add sum (Fin p)) (Fin 0) (replicate n 0) = Fin 0"
  by (induction n) simp_all

lemma ema_fold_zeros:
  "list_all (\<lambda>i. prices ! i = 0) ixs \<Longrightarrow>
     fold (\<lambda>i ema. d_add (d_mul (d_sub (Fin (prices ! i)) ema) (Fin m)) ema) ixs (Fin 0) = Fin 0"
  by (induction ixs) (simp_all add: d_sub_def)

lemma ema_last_spike:
  assumes p: "0 < p" "p \<le> 49" and m: "rnd (2 / (real p + 1)) = Fin m"
    and x: "rnd x = Fin x" and y: "rnd (x * m) = Fin y" "rnd y = Fin y"
  shows "calculateEMA_double (replicate 49 0 @ [x]) p = Fin y"
proof -
  let ?ps = "replicate 49 0 @ [x]"
  have sl: "slice ?ps 0 (int p) = replicate p 0"
    using p by (simp add: slice_def rel_index_def min_def)
  have sma: "calculateSMA_double (replicate p 0) p = Fin 0"
    using p by (simp add: calculateSMA_double_def slice_from_def rel_index_def sum_zeros)
  have ix: "[p ..< length ?ps] = [p ..< 49] @ [49]"
    using p by (simp add: upt_Suc_append [symmetric] del: upt_Suc)
  have z: "list_all (\<lambda>i. ?ps ! i = 0) [p ..< 49]"
    by (simp add: list_all_iff nth_append)
  have mult: "d_div (Fin 2) (Fin (real p + 1)) = Fin m"
    using m by simp
  have last: "?ps ! 49 = x" by (simp add: nth_append)
  have "calculateEMA_double ?ps p =
          fold (\<lambda>i ema. d_add (d_mul (d_sub (Fin (?ps ! i)) ema) (Fin m)) ema)
            ([p ..< 49] @ [49]) (Fin 0)"
    using p unfolding calculateEMA_double_def Let_def sl sma mult ix by simp
  also have "\<dots> = d_add (d_mul (d_sub (Fin x) (Fin 0)) (Fin m)) (Fin 0)"
    unfolding fold_append comp_def ema_fold_zeros [OF z] by (simp add: last)
  also have "\<dots> = Fin y"
    using x y by (simp add: d_sub_def)
  finally show ?thesis .
qed

lemma macd_lines_general:
  assumes "calculateEMA_double ps 12 = Fin a" "calculateEMA_double ps 26 = Fin b"
    and "rnd (a - b) = Fin A" "rnd (A * (3602879701896397 / 4503599627370496)) = Fin B"
    and "rnd (A - B) = Fin H"
  shows "calculateMACD ps = \<lparr>m_macd = Fin A, m_signal = Fin B, m_histogram = Fin H\<rparr>"
  using assms by (simp add: calculateMACD_def Let_def d_sub_def rnd_08_normal)

lemma r_m13: "rnd (2 / 13) = Fin (1385722962267845 / 9007199254740992)"
  using rnd_cert [of "2 / 13" "- 55" 5542891849071380]
  by (simp add: pow2_def round_half_even_def)

lemma r_m27: "rnd (2 / 27) = Fin (667199944795629 / 9007199254740992)"
  using rnd_cert [of "2 / 27" "- 56" 5337599558365032]
  by (simp add: pow2_def round_half_even_def)

lemma r_A: "rnd (1385722962267845 / 9007199254740992 - 667199944795629 / 9007199254740992) = Fin (89815377184027 / 1125899906842624)"
  using rnd_cert [of "1385722962267845 / 9007199254740992 - 667199944795629 / 9007199254740992" "- 56" 5748184139777728]
  by (simp add: pow2_def round_half_even_def)

lemma r_B: "rnd (89815377184027 / 1125899906842624 * (3602879701896397 / 4503599627370496)) = Fin (4598547311822183 / 72057594037927936)"
  using rnd_cert [of "89815377184027 / 1125899906842624 * (3602879701896397 / 4503599627370496)" "- 56" 4598547311822183]
  by (simp add: pow2_def round_half_even_def)

lemma r_H: "rnd (89815377184027 / 1125899906842624 - 4598547311822183 / 72057594037927936) = Fin (1149636827955545 / 72057594037927936)"
  using rnd_cert [of "89815377184027 / 1125899906842624 - 4598547311822183 / 72057594037927936" "- 58" 4598547311822180]
  by (simp add: pow2_def round_half_even_def)

lemma r_H2: "rnd (89815377184027 / 1125899906842624 * (3602879701896397 / 18014398509481984)) = Fin (4598547311822183 / 288230376151711744)"
  using rnd_cert [of "89815377184027 / 1125899906842624 * (3602879701896397 / 18014398509481984)" "- 58" 4598547311822183]
  by (simp add: pow2_def round_half_even_def)

lemma ema12_unit:
  "calculateEMA_double (replicate 49 0 @ [1]) 12 = Fin (1385722962267845 / 9007199254740992)"
proof -
  have m: "rnd (2 / (real 12 + 1)) = Fin (1385722962267845 / 9007199254740992)"
    using r_m13 by simp
  have y: "rnd (1 * (1385722962267845 / 9007199254740992))
             = Fin (1385722962267845 / 9007199254740992)"
    using rnd_idem [OF r_m13] by simp
  show ?thesis
    by (rule ema_last_spike [OF _ _ m r_1 y rnd_idem [OF r_m13]]) simp_all
qed

lemma ema26_unit:
  "calculateEMA_double (replicate 49 0 @ [1]) 26 = Fin (667199944795629 / 9007199254740992)"
proof -
  have m: "rnd (2 / (real 26 + 1)) = Fin (667199944795629 / 9007199254740992)"
    using r_m27 by simp
  have y: "rnd (1 * (667199944795629 / 9007199254740992))
             = Fin (667199944795629 / 9007199254740992)"
    using rnd_idem [OF r_m27] by simp
  show ?thesis
    by (rule ema_last_spike [OF _ _ m r_1 y rnd_idem [OF r_m27]]) simp_all
qed

lemma macd_unit50:
  "calculateMACD (replicate 49 0 @ [1]) =
     \<lparr>m_macd = Fin (89815377184027 / 1125899906842624),
      m_signal = Fin (4598547311822183 / 72057594037927936),
      m_histogram = Fin (1149636827955545 / 72057594037927936)\<rparr>"
  by (rule macd_lines_general [OF ema12_unit ema26_unit r_A r_B r_H])

lemma r_4u:
  "rnd (4 * pow2 (- 1074)) = Fin (4 * pow2 (- 1074))"
  "rnd (4 * pow2 (- 1074) * (1385722962267845 / 9007199254740992)) = Fin (pow2 (- 1074))"
  "rnd (4 * pow2 (- 1074) * (667199944795629 / 9007199254740992)) = Fin 0"
proof -
  show "rnd (4 * pow2 (- 1074)) = Fin (4 * pow2 (- 1074))"
    using rnd_exact [of "4 * pow2 (- 1074)" 4 "- 1074"] by simp
  show "rnd (4 * pow2 (- 1074) * (1385722962267845 / 9007199254740992)) = Fin (pow2 (- 1074))"
    using rnd_cert [of "4 * pow2 (- 1074) * (1385722962267845 / 9007199254740992)" "- 1074" 1]
    by (simp add: pow2_def round_half_even_def)
  show "rnd (4 * pow2 (- 1074) * (667199944795629 / 9007199254740992)) = Fin 0"
    using rnd_cert [of "4 * pow2 (- 1074) * (667199944795629 / 9007199254740992)" "- 1074" 0]
    by (simp add: pow2_def round_half_even_def)
qed

lemma r_least: "rnd (pow2 (- 1074)) = Fin (pow2 (- 1074))"
  using rnd_exact [of "pow2 (- 1074)" 1 "- 1074"] by simp

lemma macd_least50:
  "calculateMACD (replicate 49 0 @ [4 * pow2 (- 1074)]) =
     \<lparr>m_macd = Fin (pow2 (- 1074)), m_signal = Fin (pow2 (- 1074)), m_histogram = Fin 0\<rparr>"
proof -
  have m13: "rnd (2 / (real 12 + 1)) = Fin (1385722962267845 / 9007199254740992)"
    using r_m13 by simp
  have m27: "rnd (2 / (real 26 + 1)) = Fin (667199944795629 / 9007199254740992)"
    using r_m27 by simp
  have e12: "calculateEMA_double (replicate 49 0 @ [4 * pow2 (- 1074)]) 12 = Fin (pow2 (- 1074))"
    by (rule ema_last_spike [OF _ _ m13 r_4u(1) r_4u(2) r_least]) simp_all
  have e26: "calculateEMA_double (replicate 49 0 @ [4 * pow2 (- 1074)]) 26 = Fin 0"
    by (rule ema_last_spike [OF _ _ m27 r_4u(1) r_4u(3) rnd_0]) simp_all
  have a: "rnd (pow2 (- 1074) - 0) = Fin (pow2 (- 1074))"
    using r_least by simp
  have "\<bar>pow2 (- 1074)\<bar> < 3 * pow2 (- 1074)" by simp
  from macd_small [OF r_least this]
  have b: "rnd (pow2 (- 1074) * (3602879701896397 / 4503599627370496)) = Fin (pow2 (- 1074))"
    by (simp add: rnd_08_normal)
  have h: "rnd (pow2 (- 1074) - pow2 (- 1074)) = Fin 0" by simp
  show ?thesis by (rule macd_lines_general [OF e12 e26 a b h])
qed

text \<open>
  The claim as stated fails twice. For the twelve prices 12, 0, ..., 0 the MACD line is
  1 and the histogram is \<open>1 - 0.8\<close> rounded, which is one unit in the last place
  below \<open>1 * 0.2\<close>; for the 50 closes 0, ..., 0, 1 the histogram differs from
  \<open>macd * 0.2\<close> in the same way, and it is the value of the MACD entry of the
  evaluation. For the 50 closes 0, ..., 0, \<open>4 * 2^-1074\<close> the MACD line is
  \<open>2^-1074 > 0\<close>, the least positive double; the signal line rounds to the same
  value and the histogram is 0, so the MACD entry of the evaluation is NEUTRAL, not
  BUY.
\<close>

theorem macd_rounding_counterexample:
  "m_macd (calculateMACD [12, 0, 0, 0, 0, 0, 0, 0, 0, 0, 0, 0]) = Fin 1
   \<and> m_histogram (calculateMACD [12, 0, 0, 0, 0, 0, 0, 0, 0, 0, 0, 0])
       = Fin (900719925474099 / 4503599627370496)
   \<and> d_mul (m_macd (calculateMACD [12, 0, 0, 0, 0, 0, 0, 0, 0, 0, 0, 0])) (rnd 0.2)
       = Fin (3602879701896397 / 18014398509481984)
   \<and> m_histogram (calculateMACD [12, 0, 0, 0, 0, 0, 0, 0, 0, 0, 0, 0])
       \<noteq> d_mul (m_macd (calculateMACD [12, 0, 0, 0, 0, 0, 0, 0, 0, 0, 0, 0])) (rnd 0.2)
   \<and> m_macd (calculateMACD (replicate 49 0 @ [1])) = Fin (89815377184027 / 1125899906842624)
   \<and> m_histogram (calculateMACD (replicate 49 0 @ [1]))
       = Fin (1149636827955545 / 72057594037927936)
   \<and> d_mul (m_macd (calculateMACD (replicate 49 0 @ [1]))) (rnd 0.2)
       = Fin (4598547311822183 / 288230376151711744)
   \<and> m_histogram (calculateMACD (replicate 49 0 @ [1]))
       \<noteq> d_mul (m_macd (calculateMACD (replicate 49 0 @ [1]))) (rnd 0.2)
   \<and> map s_value (filter (\<lambda>s. s_indicator s = ''MACD'')
        (signals (getMarketSentiment_body ''BTC''
           (replicate 49 \<lparr>c_time = 0, c_open = 0, c_high = 0, c_low = 0, c_close = 0,
                           c_volume = 1\<rparr>
            @ [\<lparr>c_time = 0, c_open = 0, c_high = 1, c_low = 0, c_close = 1, c_volume = 1\<rparr>])
           1700000000000)))
       = [Fin (1149636827955545 / 72057594037927936)]
   \<and> m_macd (calculateMACD (replicate 49 0 @ [4 * pow2 (- 1074)])) = Fin (pow2 (- 1074))
   \<and> n_gt (m_macd (calculateMACD (replicate 49 0 @ [4 * pow2 (- 1074)]))) (Fin 0)
   \<and> m_histogram (calculateMACD (replicate 49 0 @ [4 * pow2 (- 1074)])) = Fin 0
   \<and> map s_signal (filter (\<lambda>s. s_indicator s = ''MACD'')
        (signals (getMarketSentiment_body ''BTC''
           (replicate 49 \<lparr>c_time = 0, c_open = 0, c_high = 0, c_low = 0, c_close = 0,
                           c_volume = 1\<rparr>
            @ [\<lparr>c_time = 0, c_open = 0, c_high = 4 * pow2 (- 1074), c_low = 0,
                 c_close = 4 * pow2 (- 1074), c_volume = 1\<rparr>])
           1700000000000)))
       = [NEUTRAL]"
proof -
  let ?c0 = "\<lparr>c_time = 0, c_open = 0, c_high = 0, c_low = 0, c_close = 0, c_volume = 1\<rparr>"
  let ?c1 = "\<lparr>c_time = 0, c_open = 0, c_high = 1, c_low = 0, c_close = 1, c_volume = 1\<rparr>"
  let ?cu = "\<lparr>c_time = 0, c_open = 0, c_high = 4 * pow2 (- 1074), c_low = 0,
              c_close = 4 * pow2 (- 1074), c_volume = 1\<rparr>"
  have c2: "rnd 0.2 = Fin (3602879701896397 / 18014398509481984)"
    using r_02 by simp
  have a: "d_mul (Fin 1) (rnd 0.2) = Fin (3602879701896397 / 18014398509481984)"
    unfolding c2 by (simp add: r_02d)
  have b: "d_mul (Fin (89815377184027 / 1125899906842624)) (rnd 0.2)
             = Fin (4598547311822183 / 288230376151711744)"
    unfolding c2 d_mul.simps by (rule r_H2)
  have l1: "50 \<le> length (replicate 49 ?c0 @ [?c1])" by simp
  have k1: "calculateMACD (map c_close (replicate 49 ?c0 @ [?c1])) =
     \<lparr>m_macd = Fin (89815377184027 / 1125899906842624),
      m_signal = Fin (4598547311822183 / 72057594037927936),
      m_histogram = Fin (1149636827955545 / 72057594037927936)\<rparr>"
    using macd_unit50 by simp
  have lu: "50 \<le> length (replicate 49 ?c0 @ [?cu])" by simp
  have ku: "calculateMACD (map c_close (replicate 49 ?c0 @ [?cu])) =
     \<lparr>m_macd = Fin (pow2 (- 1074)), m_signal = Fin (pow2 (- 1074)), m_histogram = Fin 0\<rparr>"
    using macd_least50 by simp
  have v: "map s_value (filter (\<lambda>s. s_indicator s = ''MACD'')
        (signals (getMarketSentiment_body ''BTC'' (replicate 49 ?c0 @ [?c1]) 1700000000000)))
       = [Fin (1149636827955545 / 72057594037927936)]"
    unfolding body_macd_entry(2) [OF l1 k1] by simp
  have n: "map s_signal (filter (\<lambda>s. s_indicator s = ''MACD'')
        (signals (getMarketSentiment_body ''BTC'' (replicate 49 ?c0 @ [?cu]) 1700000000000)))
       = [NEUTRAL]"
    unfolding body_macd_entry(1) [OF lu ku] by (simp add: n_gt_def)
  have g: "n_gt (Fin (pow2 (- 1074))) (Fin 0)" by (simp add: n_gt_def)
  from a b v n g show ?thesis
    unfolding macd_unit macd_unit50 macd_least50 by simp
qed

section \<open>Pattern detector\<close>

lemma name_mem_filter:
  "(n \<in> set (map p_name ps)) = (filter (\<lambda>p. p_name p = n) ps \<noteq> [])"
  by (auto simp: filter_empty_conv)

lemma crossPatterns_golden:
  "filter (\<lambda>p. p_name p = ''Golden Cross'') (crossPatterns prices ma50 ma200) =
     (if 200 \<le> length prices
         \<and> calculateSMA (butlast prices) 50 < calculateSMA (butlast prices) 200
         \<and> ma50 > ma200
      then [\<lparr>p_name = ''Golden Cross'', p_type = bullish, p_confidence = 85,
             p_description = ''50 SMA crossed above 200 SMA - major bullish signal''\<rparr>]
      else [])"
  by (simp add: crossPatterns_def Let_def slice_butlast)

lemma crossPatterns_death:
  "filter (\<lambda>p. p_name p = ''Death Cross'') (crossPatterns prices ma50 ma200) =
     (if 200 \<le> length prices
         \<and> calculateSMA (butlast prices) 50 > calculateSMA (butlast prices) 200
         \<and> ma50 < ma200
      then [\<lparr>p_name = ''Death Cross'', p_type = bearish, p_confidence = 85,
             p_description = ''50 SMA crossed below 200 SMA - major bearish signal''\<rparr>]
      else [])"
  by (simp add: crossPatterns_def Let_def slice_butlast)

lemma crossPatterns_other:
  "filter (\<lambda>p. p_name p = ''Bullish Trend'') (crossPatterns prices ma50 ma200) = []"
  "filter (\<lambda>p. p_name p = ''Bearish Trend'') (crossPatterns prices ma50 ma200) = []"
  "filter (\<lambda>p. p_name p = ''Uptrend Structure'') (crossPatterns prices ma50 ma200) = []"
  by (simp_all add: crossPatterns_def Let_def)

lemma trendPatterns_bullish:
  "filter (\<lambda>p. p_name p = ''Bullish Trend'') (trendPatterns cp ma50 ma200) =
     (if n_gt cp (Fin ma200) \<and> n_gt cp (Fin ma50)
      then [\<lparr>p_name = ''Bullish Trend'', p_type = bullish, p_confidence = 70,
             p_description = ''Price above both 50 and 200 SMA''\<rparr>]
      else [])"
  by (simp add: trendPatterns_def)

lemma trendPatterns_bearish:
  "filter (\<lambda>p. p_name p = ''Bearish Trend'') (trendPatterns cp ma50 ma200) =
     (if \<not> (n_gt cp (Fin ma200) \<and> n_gt cp (Fin ma50))
         \<and> n_lt cp (Fin ma200) \<and> n_lt cp (Fin ma50)
      then [\<lparr>p_name = ''Bearish Trend'', p_type = bearish, p_confidence = 70,
             p_description = ''Price below both 50 and 200 SMA''\<rparr>]
      else [])"
  by (simp add: trendPatterns_def)

lemma trendPatterns_other:
  "filter (\<lambda>p. p_name p = ''Golden Cross'') (trendPatterns cp ma50 ma200) = []"
  "filter (\<lambda>p. p_name p = ''Death Cross'') (trendPatterns cp ma50 ma200) = []"
  "filter (\<lambda>p. p_name p = ''Uptrend Structure'') (trendPatterns cp ma50 ma200) = []"
  by (simp_all add: trendPatterns_def)

lemma supportResistancePatterns_other:
  "filter (\<lambda>p. p_name p = ''Golden Cross'') (supportResistancePatterns cp highs lows) = []"
  "filter (\<lambda>p. p_name p = ''Death Cross'') (supportResistancePatterns cp highs lows) = []"
  "filter (\<lambda>p. p_name p = ''Bullish Trend'') (supportResistancePatterns cp highs lows) = []"
  "filter (\<lambda>p. p_name p = ''Bearish Trend'') (supportResistancePatterns cp highs lows) = []"
  "filter (\<lambda>p. p_name p = ''Uptrend Structure'') (supportResistancePatterns cp highs lows) = []"
  by (simp_all add: supportResistancePatterns_def Let_def)

lemma uptrendPatterns_other:
  "filter (\<lambda>p. p_name p = ''Golden Cross'') (uptrendPatterns highs lows) = []"
  "filter (\<lambda>p. p_name p = ''Death Cross'') (uptrendPatterns highs lows) = []"
  "filter (\<lambda>p. p_name p = ''Bullish Trend'') (uptrendPatterns highs lows) = []"
  "filter (\<lambda>p. p_name p = ''Bearish Trend'') (uptrendPatterns highs lows) = []"
  by (simp_all add: uptrendPatterns_def Let_def)

lemma detectPatterns_golden:
  "filter (\<lambda>p. p_name p = ''Golden Cross'') (detectPatterns prices highs lows) =
     (if 200 \<le> length prices
         \<and> calculateSMA (butlast prices) 50 < calculateSMA (butlast prices) 200
         \<and> calculateSMA prices 50 > calculateSMA prices 200
      then [\<lparr>p_name = ''Golden Cross'', p_type = bullish, p_confidence = 85,
             p_description = ''50 SMA crossed above 200 SMA - major bullish signal''\<rparr>]
      else [])"
  unfolding detectPatterns_def Let_def filter_append crossPatterns_golden
    trendPatterns_other supportResistancePatterns_other uptrendPatterns_other
  by simp

lemma detectPatterns_death:
  "filter (\<lambda>p. p_name p = ''Death Cross'') (detectPatterns prices highs lows) =
     (if 200 \<le> length prices
         \<and> calculateSMA (butlast prices) 50 > calculateSMA (butlast prices) 200
         \<and> calculateSMA prices 50 < calculateSMA prices 200
      then [\<lparr>p_name = ''Death Cross'', p_type = bearish, p_confidence = 85,
             p_description = ''50 SMA crossed below 200 SMA - major bearish signal''\<rparr>]
      else [])"
  unfolding detectPatterns_def Let_def filter_append crossPatterns_death
    trendPatterns_other supportResistancePatterns_other uptrendPatterns_other
  by simp

lemma detectPatterns_bullish:
  "filter (\<lambda>p. p_name p = ''Bullish Trend'') (detectPatterns prices highs lows) =
     filter (\<lambda>p. p_name p = ''Bullish Trend'')
       (trendPatterns (toNumber (at_index prices (int (length prices) - 1)))
          (calculateSMA prices 50) (calculateSMA prices 200))"
  unfolding detectPatterns_def Let_def filter_append crossPatterns_other
    supportResistancePatterns_other uptrendPatterns_other
  by simp

lemma detectPatterns_bearish:
  "filter (\<lambda>p. p_name p = ''Bearish Trend'') (detectPatterns prices highs lows) =
     filter (\<lambda>p. p_name p = ''Bearish Trend'')
       (trendPatterns (toNumber (at_index prices (int (length prices) - 1)))
          (calculateSMA prices 50) (calculateSMA prices 200))"
  unfolding detectPatterns_def Let_def filter_append crossPatterns_other
    supportResistancePatterns_other uptrendPatterns_other
  by simp

lemma detectPatterns_length: "length (detectPatterns prices highs lows) \<le> 5"
proof -
  have c: "length (crossPatterns prices a b) \<le> 1" for a b
    by (simp add: crossPatterns_def Let_def)
  have t: "length (trendPatterns c a b) \<le> 1" for a b c
    by (simp add: trendPatterns_def)
  have s: "length (supportResistancePatterns c highs lows) \<le> 2" for c
    by (simp add: supportResistancePatterns_def Let_def)
  have u: "length (uptrendPatterns highs lows) \<le> 1"
    by (simp add: uptrendPatterns_def Let_def)
  have arith: "a \<le> 1 \<Longrightarrow> b \<le> 1 \<Longrightarrow> c \<le> 2 \<Longrightarrow> d \<le> 1 \<Longrightarrow> a + (b + (c + d)) \<le> 5"
    for a b c d :: nat by linarith
  show ?thesis
    unfolding detectPatterns_def Let_def length_append
    using c [of "calculateSMA prices 50" "calculateSMA prices 200"]
          t [of "toNumber (at_index prices (int (length prices) - 1))"
               "calculateSMA prices 50" "calculateSMA prices 200"]
          s [of "toNumber (at_index prices (int (length prices) - 1))"] u
    by (rule arith)
qed

text \<open>
  C10. The detector emits at most 5 entries, never both Golden Cross and Death Cross,
  and never both Bullish Trend and Bearish Trend.
\<close>

theorem patterns_at_most_five_and_exclusive:
  "length (detectPatterns prices highs lows) \<le> 5
   \<and> \<not> (''Golden Cross'' \<in> set (map p_name (detectPatterns prices highs lows))
        \<and> ''Death Cross'' \<in> set (map p_name (detectPatterns prices highs lows)))
   \<and> \<not> (''Bullish Trend'' \<in> set (map p_name (detectPatterns prices highs lows))
        \<and> ''Bearish Trend'' \<in> set (map p_name (detectPatterns prices highs lows)))"
proof (intro conjI)
  show "length (detectPatterns prices highs lows) \<le> 5"
    by (rule detectPatterns_length)
  show "\<not> (''Golden Cross'' \<in> set (map p_name (detectPatterns prices highs lows))
        \<and> ''Death Cross'' \<in> set (map p_name (detectPatterns prices highs lows)))"
    unfolding name_mem_filter detectPatterns_golden detectPatterns_death
    by (simp split: if_splits)
  show "\<not> (''Bullish Trend'' \<in> set (map p_name (detectPatterns prices highs lows))
        \<and> ''Bearish Trend'' \<in> set (map p_name (detectPatterns prices highs lows)))"
    unfolding name_mem_filter detectPatterns_bullish detectPatterns_bearish
      trendPatterns_bullish trendPatterns_bearish
    by (simp split: if_splits)
qed

















section \<open>Determinism and the clock\<close>

lemma body_clock:
  "getMarketSentiment_body symb ohlcv t1 =
     (getMarketSentiment_body symb ohlcv t2)\<lparr>timestamp := t1\<rparr>"
  by (simp add: getMarketSentiment_body_def Let_def)

lemma body_timestamp: "timestamp (getMarketSentiment_body symb ohlcv t) = t"
  by (simp add: getMarketSentiment_body_def Let_def)

lemma call_result:
  assumes "stored_from c symb ohlcv"
  shows "fst (getMarketSentiment c symb ohlcv tg tn ts) =
           getMarketSentiment_body symb ohlcv
             (case map_of c (''sentiment:'' @ symb) of
                None \<Rightarrow> tn
              | Some entry \<Rightarrow> if tg > expiresAt entry then tn else timestamp (data entry))"
  using assms
  by (auto simp: getMarketSentiment_def withCache_def cache_get_def stored_from_def
        split: option.splits)

lemma call_cache:
  assumes "stored_from c symb ohlcv"
  shows "\<exists>entry. map_of (snd (getMarketSentiment c symb ohlcv tg tn ts)) (''sentiment:'' @ symb)
                   = Some entry
               \<and> data entry = fst (getMarketSentiment c symb ohlcv tg tn ts)
               \<and> expiresAt entry =
                   (case map_of c (''sentiment:'' @ symb) of
                      None \<Rightarrow> ts + 60 * 1000
                    | Some old \<Rightarrow> if tg > expiresAt old then ts + 60 * 1000 else expiresAt old)"
  using assms
  by (auto simp: getMarketSentiment_def withCache_def cache_get_def cache_set_def
        stored_from_def update_conv' delete_conv' split: option.splits)

lemma call_second:
  assumes "map_of c (''sentiment:'' @ symb) = Some entry"
  shows "fst (getMarketSentiment c symb ohlcv tg tn ts) =
           (if tg > expiresAt entry then getMarketSentiment_body symb ohlcv tn else data entry)"
  using assms
  by (simp add: getMarketSentiment_def withCache_def cache_get_def)

text \<open>
  C8 (as the code has it). Take a symbol whose fetch returns the same candles at every
  call, and a cache whose entry for the symbol, if any, was stored from these candles.
  Then every result of \<^verbatim>\<open>getMarketSentiment\<close> is the evaluation of the candles
  stamped with the result's own timestamp, so two invocations agree on symbol, overall,
  score, signals, patterns and summary. The timestamp is the clock reading of the
  evaluation that built the result: a call served from the cache, up to 60 seconds
  after the entry was stored, returns the stored result with the stored timestamp, and
  a call after the entry has expired evaluates again and carries the new reading.
\<close>

theorem cached_results_agree:
  assumes "stored_from c symb ohlcv"
  shows "fst (getMarketSentiment c symb ohlcv g1 n1 s1) =
           getMarketSentiment_body symb ohlcv
             (timestamp (fst (getMarketSentiment c symb ohlcv g1 n1 s1)))
       \<and> timestamp (fst (getMarketSentiment c symb ohlcv g1 n1 s1)) =
           (case map_of c (''sentiment:'' @ symb) of
              None \<Rightarrow> n1
            | Some entry \<Rightarrow> if g1 > expiresAt entry then n1 else timestamp (data entry))
       \<and> stored_from (snd (getMarketSentiment c symb ohlcv g1 n1 s1)) symb ohlcv
       \<and> fst (getMarketSentiment (snd (getMarketSentiment c symb ohlcv g1 n1 s1))
                symb ohlcv g2 n2 s2) =
           (fst (getMarketSentiment c symb ohlcv g1 n1 s1))
             \<lparr>timestamp := timestamp (fst (getMarketSentiment
                  (snd (getMarketSentiment c symb ohlcv g1 n1 s1)) symb ohlcv g2 n2 s2))\<rparr>
       \<and> (case map_of (snd (getMarketSentiment c symb ohlcv g1 n1 s1)) (''sentiment:'' @ symb) of
             None \<Rightarrow> False
           | Some entry \<Rightarrow>
               expiresAt entry =
                 (case map_of c (''sentiment:'' @ symb) of
                    None \<Rightarrow> s1 + 60 * 1000
                  | Some old \<Rightarrow> if g1 > expiresAt old then s1 + 60 * 1000 else expiresAt old)
               \<and> fst (getMarketSentiment (snd (getMarketSentiment c symb ohlcv g1 n1 s1))
                      symb ohlcv g2 n2 s2) =
                 (if g2 > expiresAt entry then getMarketSentiment_body symb ohlcv n2
                  else fst (getMarketSentiment c symb ohlcv g1 n1 s1)))"
proof -
  let ?r1 = "fst (getMarketSentiment c symb ohlcv g1 n1 s1)"
  let ?c1 = "snd (getMarketSentiment c symb ohlcv g1 n1 s1)"
  let ?r2 = "fst (getMarketSentiment ?c1 symb ohlcv g2 n2 s2)"
  let ?t1 = "case map_of c (''sentiment:'' @ symb) of
              None \<Rightarrow> n1
            | Some entry \<Rightarrow> if g1 > expiresAt entry then n1 else timestamp (data entry)"
  have r1: "?r1 = getMarketSentiment_body symb ohlcv ?t1"
    using assms by (rule call_result)
  then have t1: "timestamp ?r1 = ?t1" by (simp add: body_timestamp)
  from r1 t1 have a: "?r1 = getMarketSentiment_body symb ohlcv (timestamp ?r1)" by simp
  from call_cache [OF assms, of g1 n1 s1] obtain entry where
    e: "map_of ?c1 (''sentiment:'' @ symb) = Some entry" and d: "data entry = ?r1"
    and x: "expiresAt entry =
                 (case map_of c (''sentiment:'' @ symb) of
                    None \<Rightarrow> s1 + 60 * 1000
                  | Some old \<Rightarrow> if g1 > expiresAt old then s1 + 60 * 1000 else expiresAt old)"
    by blast
  from e d a have st: "stored_from ?c1 symb ohlcv"
    by (simp add: stored_from_def)
  from call_second [OF e, of ohlcv g2 n2 s2] d
  have r2: "?r2 = (if g2 > expiresAt entry then getMarketSentiment_body symb ohlcv n2 else ?r1)"
    by simp
  have b: "?r2 = ?r1\<lparr>timestamp := timestamp ?r2\<rparr>"
  proof (cases "g2 > expiresAt entry")
    case True
    with r2 have "?r2 = getMarketSentiment_body symb ohlcv n2" by simp
    with a body_clock [of symb ohlcv n2 "timestamp ?r1"] show ?thesis
      by (simp add: body_timestamp)
  next
    case False
    with r2 show ?thesis by simp
  qed
  have last: "case map_of ?c1 (''sentiment:'' @ symb) of
             None \<Rightarrow> False
           | Some entry \<Rightarrow>
               expiresAt entry =
                 (case map_of c (''sentiment:'' @ symb) of
                    None \<Rightarrow> s1 + 60 * 1000
                  | Some old \<Rightarrow> if g1 > expiresAt old then s1 + 60 * 1000 else expiresAt old)
               \<and> ?r2 = (if g2 > expiresAt entry then getMarketSentiment_body symb ohlcv n2
                        else ?r1)"
    unfolding e option.case using x r2 by (rule conjI)
  from a t1 st b last show ?thesis by (intro conjI)
qed

theorem cached_results_agree_witness:
  "stored_from [] ''BTC'' []
   \<and> timestamp (fst (getMarketSentiment [] ''BTC'' [] 1700000000000 1700000000001 1700000000002))
       = 1700000000001
   \<and> fst (getMarketSentiment
            (snd (getMarketSentiment [] ''BTC'' [] 1700000000000 1700000000001 1700000000002))
            ''BTC'' [] 1700000060002 1700000060003 1700000060004)
       = fst (getMarketSentiment [] ''BTC'' [] 1700000000000 1700000000001 1700000000002)
   \<and> fst (getMarketSentiment
            (snd (getMarketSentiment [] ''BTC'' [] 1700000000000 1700000000001 1700000000002))
            ''BTC'' [] 1700000060003 1700000060004 1700000060005)
       = (fst (getMarketSentiment [] ''BTC'' [] 1700000000000 1700000000001 1700000000002))
           \<lparr>timestamp := 1700000060004\<rparr>"
proof -
  have h: "stored_from [] ''BTC'' []" by (simp add: stored_from_def)
  note first = cached_results_agree [OF h, of 1700000000000 1700000000001 1700000000002
      1700000060002 1700000060003 1700000060004]
  note second = cached_results_agree [OF h, of 1700000000000 1700000000001 1700000000002
      1700000060003 1700000060004 1700000060005]
  have t: "timestamp (fst (getMarketSentiment [] ''BTC'' [] 1700000000000 1700000000001
                1700000000002)) = 1700000000001"
    using first by simp
  obtain entry where
    e: "map_of (snd (getMarketSentiment [] ''BTC'' [] 1700000000000 1700000000001
                1700000000002)) (''sentiment:'' @ ''BTC'') = Some entry"
    using first by (auto split: option.splits)
  from first e have x: "expiresAt entry = 1700000060002" by simp
  from first e x have hit: "fst (getMarketSentiment
            (snd (getMarketSentiment [] ''BTC'' [] 1700000000000 1700000000001 1700000000002))
            ''BTC'' [] 1700000060002 1700000060003 1700000060004)
       = fst (getMarketSentiment [] ''BTC'' [] 1700000000000 1700000000001 1700000000002)"
    by simp
  from second e x have miss: "fst (getMarketSentiment
            (snd (getMarketSentiment [] ''BTC'' [] 1700000000000 1700000000001 1700000000002))
            ''BTC'' [] 1700000060003 1700000060004 1700000060005)
       = getMarketSentiment_body ''BTC'' [] 1700000060004"
    by simp
  from first have "fst (getMarketSentiment [] ''BTC'' [] 1700000000000 1700000000001
                1700000000002) = getMarketSentiment_body ''BTC'' [] 1700000000001"
    using t by simp
  with miss body_clock [of "''BTC''" "[]" 1700000060004 1700000000001]
  have upd: "fst (getMarketSentiment
            (snd (getMarketSentiment [] ''BTC'' [] 1700000000000 1700000000001 1700000000002))
            ''BTC'' [] 1700000060003 1700000060004 1700000060005)
       = (fst (getMarketSentiment [] ''BTC'' [] 1700000000000 1700000000001 1700000000002))
           \<lparr>timestamp := 1700000060004\<rparr>"
    by simp
  from h t hit upd show ?thesis by (intro conjI)
qed

text \<open>
  The claim as stated fails on the timestamp: the same symbol and candles evaluated at
  two clock readings give different results, also through the cache once the entry of
  the first call has expired.
\<close>

theorem timestamp_differs_counterexample:
  "getMarketSentiment_body ''BTC'' [] 1700000000000
     \<noteq> getMarketSentiment_body ''BTC'' [] 1700000060001
   \<and> fst (getMarketSentiment
            (snd (getMarketSentiment [] ''BTC'' [] 1700000000000 1700000000000 1700000000000))
            ''BTC'' [] 1700000060001 1700000060001 1700000060001)
       \<noteq> fst (getMarketSentiment [] ''BTC'' [] 1700000000000 1700000000000 1700000000000)"
  by (simp add: getMarketSentiment_def getMarketSentiment_body_def withCache_def
        cache_get_def cache_set_def)

end
